theory Spec2Isabelle
  imports Complex_Main "HOL-Library.Product_Lexorder"
begin

section \<open>Instants and calendar arithmetic of the platform\<close>

text \<open>
  The script \<^verbatim>\<open>Forest_Fire_Code_GEE.js\<close> composes primitives of a hosted imagery platform.
  An instant is written (year, month, day, millisecond of the day); on well-formed calendar
  instants the lexicographic order of these four components is the chronological order,
  which is the order \<^verbatim>\<open>filterDate\<close> compares in.
\<close>

type_synonym instant = "int \<times> int \<times> int \<times> int"

definition fromYMD :: "int \<Rightarrow> int \<Rightarrow> int \<Rightarrow> instant" where
  "fromYMD y m d = (y, m, d, 0)"

definition leap_year :: "int \<Rightarrow> bool" where
  "leap_year y = (y mod 4 = 0 \<and> (y mod 100 \<noteq> 0 \<or> y mod 400 = 0))"

definition days_in_month :: "int \<Rightarrow> int \<Rightarrow> int" where
  "days_in_month y m =
     (if m = 2 then (if leap_year y then 29 else 28)
      else if m = 4 \<or> m = 6 \<or> m = 9 \<or> m = 11 then 30 else 31)"

text \<open>
  \<^verbatim>\<open>date.advance(delta, 'month')\<close>: the month count moves by \<open>delta\<close>, the year carries,
  and a day beyond the end of the target month is pulled back to its last day.
\<close>

definition advance_month :: "int \<Rightarrow> instant \<Rightarrow> instant" where
  "advance_month delta t =
     (case t of (y, m, d, ms) \<Rightarrow>
        let total = y * 12 + (m - 1) + delta;
            y' = total div 12;
            m' = total mod 12 + 1
        in (y', m', min d (days_in_month y' m'), ms))"

section \<open>Part 1: the monthly buckets and their labels\<close>

text \<open>\<^verbatim>\<open>var timeSeriesStart = '2019-01-01'; var timeSeriesEnd = '2024-12-31';\<close>\<close>

definition timeSeriesStart :: instant where
  "timeSeriesStart = (2019, 1, 1, 0)"

definition timeSeriesEnd :: instant where
  "timeSeriesEnd = (2024, 12, 31, 0)"

text \<open>\<^verbatim>\<open>var months = ee.List.sequence(0, 23);\<close> (both ends included).\<close>

definition months :: "int list" where
  "months = [0..23]"

text \<open>
  The locals of the two callbacks mapped over \<open>months\<close>, as functions of the list element:
  \<^verbatim>\<open>year = ee.Number(month).divide(12).floor().add(2019)\<close>,
  \<^verbatim>\<open>monthOfYear = ee.Number(month).mod(12).add(1)\<close>,
  \<^verbatim>\<open>monthStart = ee.Date.fromYMD(year, monthOfYear, 1)\<close>,
  \<^verbatim>\<open>monthEnd = monthStart.advance(1, 'month')\<close>.
\<close>

definition year :: "int \<Rightarrow> int" where
  "year month = \<lfloor>real_of_int month / 12\<rfloor> + 2019"

definition monthOfYear :: "int \<Rightarrow> int" where
  "monthOfYear month = month mod 12 + 1"

definition monthStart :: "int \<Rightarrow> instant" where
  "monthStart month = fromYMD (year month) (monthOfYear month) 1"

definition monthEnd :: "int \<Rightarrow> instant" where
  "monthEnd month = advance_month 1 (monthStart month)"

text \<open>
  \<^verbatim>\<open>Number.format('%d')\<close> and \<^verbatim>\<open>Number.format('%02d')\<close>: decimal digits, a minus sign
  for a negative number, and zeros on the left up to the width.
\<close>

definition digit_char :: "nat \<Rightarrow> char" where
  "digit_char n = ''0123456789'' ! n"

fun digits :: "nat \<Rightarrow> string" where
  "digits n = (if n < 10 then [digit_char n] else digits (n div 10) @ [digit_char (n mod 10)])"

definition format_d :: "int \<Rightarrow> string" where
  "format_d i = (if i < 0 then CHR ''-'' # digits (nat (- i)) else digits (nat i))"

definition format_0d :: "nat \<Rightarrow> int \<Rightarrow> string" where
  "format_0d width i =
     (let ds = digits (nat \<bar>i\<bar>)
      in if i < 0 then CHR ''-'' # replicate (width - 1 - length ds) CHR ''0'' @ ds
         else replicate (width - length ds) CHR ''0'' @ ds)"

text \<open>
  \<^verbatim>\<open>monthString = ee.String(year.format('%d')).cat('-').cat(monthOfYear.format('%02d'))\<close>
\<close>

definition monthString :: "int \<Rightarrow> string" where
  "monthString month = format_d (year month) @ ''-'' @ format_0d 2 (monthOfYear month)"

definition monthLabels :: "string list" where
  "monthLabels = map monthString months"

text \<open>
  The half-open interval of a bucket, and the buckets of the list whose interval holds an
  instant; both are vocabulary for stating how the buckets tile time.
\<close>

definition in_bucket :: "int \<Rightarrow> instant \<Rightarrow> bool" where
  "in_bucket month t = (monthStart month \<le> t \<and> t < monthEnd month)"

definition bucket_members :: "instant \<Rightarrow> int list" where
  "bucket_members t = filter (\<lambda>month. in_bucket month t) months"

text \<open>
  The bucket count in the words of the specification:
  (end.year*12 + end.month) - (start.year*12 + start.month).
\<close>

definition spec_bucket_count :: "instant \<Rightarrow> instant \<Rightarrow> int" where
  "spec_bucket_count t0 t1 =
     (case (t0, t1) of ((y0, m0, _), (y1, m1, _)) \<Rightarrow> (y1 * 12 + m1) - (y0 * 12 + m0))"

text \<open>The label shape in the words of the specification: four digits, a dash, two digits.\<close>

definition is_digit :: "char \<Rightarrow> bool" where
  "is_digit c = (c \<in> set ''0123456789'')"

definition is_YYYY_MM :: "string \<Rightarrow> bool" where
  "is_YYYY_MM s =
     (length s = 7 \<and> list_all is_digit (take 4 s) \<and> s ! 4 = CHR ''-'' \<and> list_all is_digit (drop 5 s))"

definition digit_value :: "char \<Rightarrow> nat" where
  "digit_value c = length (takeWhile (\<lambda>d. d \<noteq> c) ''0123456789'')"

definition read_decimal :: "string \<Rightarrow> int" where
  "read_decimal s = int (foldl (\<lambda>acc c. acc * 10 + digit_value c) 0 s)"

section \<open>Images, collections and filters\<close>

text \<open>
  An image carries its acquisition instant (\<^verbatim>\<open>system:time_start\<close>), its footprint, numeric
  metadata, the names of its bands in order, and the bands themselves; a band gives each
  pixel a value or nothing (a masked pixel). A pixel value is a real number; the values
  band arithmetic produces are binary64 numbers (see \<open>fl\<close> below). A region is the set of
  pixels it covers. A collection is a list of images.
\<close>

type_synonym pixel = "int \<times> int"
type_synonym raster = "pixel \<Rightarrow> real option"
type_synonym region = "pixel set"
type_synonym band_map = "string \<Rightarrow> raster option"

record image =
  time_start :: instant
  footprint :: region
  properties :: "string \<Rightarrow> real option"
  band_names :: "string list"
  bands :: band_map

text \<open>\<^verbatim>\<open>filterDate(start, end)\<close>: start inclusive, end exclusive.\<close>

definition filterDate :: "instant \<Rightarrow> instant \<Rightarrow> image list \<Rightarrow> image list" where
  "filterDate t0 t1 ic = filter (\<lambda>i. t0 \<le> time_start i \<and> time_start i < t1) ic"

text \<open>\<^verbatim>\<open>filterBounds(geometry)\<close>: the images whose footprint meets the geometry.\<close>

definition filterBounds :: "region \<Rightarrow> image list \<Rightarrow> image list" where
  "filterBounds g ic = filter (\<lambda>i. footprint i \<inter> g \<noteq> {}) ic"

datatype metadata_op = EQUALS | LESS_THAN | GREATER_THAN | NOT_LESS_THAN | NOT_GREATER_THAN

fun metadata_test :: "metadata_op \<Rightarrow> real \<Rightarrow> real \<Rightarrow> bool" where
  "metadata_test EQUALS x v = (x = v)"
| "metadata_test LESS_THAN x v = (x < v)"
| "metadata_test GREATER_THAN x v = (x > v)"
| "metadata_test NOT_LESS_THAN x v = (x \<ge> v)"
| "metadata_test NOT_GREATER_THAN x v = (x \<le> v)"

definition filterMetadata :: "string \<Rightarrow> metadata_op \<Rightarrow> real \<Rightarrow> image list \<Rightarrow> image list" where
  "filterMetadata name operator v ic =
     filter (\<lambda>i. case properties i name of None \<Rightarrow> False | Some x \<Rightarrow> metadata_test operator x v) ic"

subsection \<open>Band selectors\<close>

text \<open>
  A selector is a regular expression matched against the whole band name. The script uses
  literal characters, \<^verbatim>\<open>.\<close> (any one character) and \<^verbatim>\<open>.*\<close> (any run of characters).
\<close>

datatype atom = Lit char | Dot

datatype item = Once atom | Many atom

definition atom_of :: "char \<Rightarrow> atom" where
  "atom_of c = (if c = CHR ''.'' then Dot else Lit c)"

fun parse_selector :: "string \<Rightarrow> item list" where
  "parse_selector [] = []"
| "parse_selector [c] = [Once (atom_of c)]"
| "parse_selector (c # d # r) =
     (if d = CHR ''*'' then Many (atom_of c) # parse_selector r
      else Once (atom_of c) # parse_selector (d # r))"

fun fits :: "atom \<Rightarrow> char \<Rightarrow> bool" where
  "fits Dot x = True"
| "fits (Lit c) x = (c = x)"

fun accepts :: "item list \<Rightarrow> string \<Rightarrow> bool" where
  "accepts [] s = (s = [])"
| "accepts (Once a # r) [] = False"
| "accepts (Once a # r) (x # xs) = (fits a x \<and> accepts r xs)"
| "accepts (Many a # r) [] = accepts r []"
| "accepts (Many a # r) (x # xs) = (accepts r (x # xs) \<or> (fits a x \<and> accepts (Many a # r) xs))"

definition selects :: "string \<Rightarrow> string \<Rightarrow> bool" where
  "selects selector name = accepts (parse_selector selector) name"

subsection \<open>Band arithmetic and temporal reduction\<close>

definition pixel_at :: "band_map \<Rightarrow> string \<Rightarrow> pixel \<Rightarrow> real option" where
  "pixel_at bm b p = (case bm b of None \<Rightarrow> None | Some r \<Rightarrow> r p)"

text \<open>
  Band arithmetic runs in binary64 floating point. \<open>fl\<close> rounds a real to the nearest
  binary64 number, ties to the even significand: the magnitude is brought to a significand
  in [2^52, 2^53) by halving or doubling (the exponent never goes below -1074, which gives
  the subnormal numbers), and the significand is rounded to an integer. The 2200 steps
  cover every binary64 exponent; overflow to infinity is not represented.
\<close>

definition round_half_even :: "real \<Rightarrow> int" where
  "round_half_even q =
     (let f = \<lfloor>q\<rfloor>; r = q - of_int f
      in if r < 1 / 2 then f else if 1 / 2 < r then f + 1 else if even f then f else f + 1)"

fun normalize :: "nat \<Rightarrow> real \<Rightarrow> int \<Rightarrow> real \<times> int" where
  "normalize 0 m e = (m, e)"
| "normalize (Suc k) m e =
     (if 2 ^ 53 \<le> m then normalize k (m / 2) (e + 1)
      else if m < 2 ^ 52 \<and> - 1074 < e then normalize k (2 * m) (e - 1)
      else (m, e))"

definition pow2 :: "int \<Rightarrow> real" where
  "pow2 e = (if 0 \<le> e then 2 ^ nat e else 1 / 2 ^ nat (- e))"

definition fl :: "real \<Rightarrow> real" where
  "fl x =
     (if x = 0 then 0
      else case normalize 2200 \<bar>x\<bar> 0 of (m, e) \<Rightarrow> sgn x * of_int (round_half_even m) * pow2 e)"

text \<open>
  \<^verbatim>\<open>image.select(selector)\<close> keeps the bands whose name the selector matches, and raises
  when it matches none. \<^verbatim>\<open>.multiply(c)\<close> and \<^verbatim>\<open>.add(c)\<close> take the script's decimal
  constant as the binary64 number nearest to it and round each result.
  \<^verbatim>\<open>.addBands(src, null, true)\<close>: bands of \<open>src\<close> replace bands of the same name, new
  names are appended. \<^verbatim>\<open>.clip(geometry)\<close>: pixels outside the geometry become masked.
\<close>

datatype ee_error = NoBandMatched string

definition select_bands :: "string \<Rightarrow> band_map \<Rightarrow> band_map" where
  "select_bands selector bm = (\<lambda>b. if selects selector b then bm b else None)"

definition select :: "string \<Rightarrow> image \<Rightarrow> ee_error + image" where
  "select selector img =
     (if list_ex (selects selector) (band_names img)
      then Inr (img\<lparr>band_names := filter (selects selector) (band_names img),
                    bands := select_bands selector (bands img)\<rparr>)
      else Inl (NoBandMatched selector))"

definition multiply :: "real \<Rightarrow> image \<Rightarrow> image" where
  "multiply c img =
     img\<lparr>bands := (\<lambda>b. map_option (\<lambda>r p. map_option (\<lambda>v. fl (v * fl c)) (r p)) (bands img b))\<rparr>"

definition add :: "real \<Rightarrow> image \<Rightarrow> image" where
  "add c img =
     img\<lparr>bands := (\<lambda>b. map_option (\<lambda>r p. map_option (\<lambda>v. fl (v + fl c)) (r p)) (bands img b))\<rparr>"

definition addBands_overwrite :: "image \<Rightarrow> image \<Rightarrow> image" where
  "addBands_overwrite dst src =
     dst\<lparr>band_names := band_names dst @ filter (\<lambda>n. n \<notin> set (band_names dst)) (band_names src),
         bands := bands dst ++ bands src\<rparr>"

definition clip :: "region \<Rightarrow> band_map \<Rightarrow> band_map" where
  "clip g bm = (\<lambda>b. map_option (\<lambda>r p. if p \<in> g then r p else None) (bm b))"

text \<open>
  \<^verbatim>\<open>collection.select(name)\<close> on the single-product collections of the script, whose
  images all carry the selected band: each image keeps that band.
\<close>

definition select_images :: "string \<Rightarrow> image list \<Rightarrow> image list" where
  "select_images selector ic =
     map (\<lambda>i. i\<lparr>band_names := filter (selects selector) (band_names i),
                bands := select_bands selector (bands i)\<rparr>) ic"

text \<open>
  \<^verbatim>\<open>collection.map(f)\<close> for a function that may raise: the first image on which it
  raises makes the mapped collection raise.
\<close>

fun map_images :: "(image \<Rightarrow> ee_error + image) \<Rightarrow> image list \<Rightarrow> ee_error + image list" where
  "map_images f [] = Inr []"
| "map_images f (i # ic) =
     (case f i of
        Inl e \<Rightarrow> Inl e
      | Inr j \<Rightarrow> (case map_images f ic of Inl e \<Rightarrow> Inl e | Inr js \<Rightarrow> Inr (j # js)))"

datatype reducer_kind = MeanReducer | MedianReducer | MaxReducer

text \<open>
  The unmasked values a stack of images holds at one pixel of one band, and the three
  statistics the script asks for, as exact statistics of the stacked values (the rounding
  inside the platform's reducers is not represented). The median of an even number of
  values is the mean of the two middle ones. A pixel no image covers stays masked.
\<close>

definition stack_values :: "image list \<Rightarrow> string \<Rightarrow> pixel \<Rightarrow> real list" where
  "stack_values ic b p = List.map_filter (\<lambda>i. pixel_at (bands i) b p) ic"

definition median_of :: "real list \<Rightarrow> real" where
  "median_of vs =
     (let s = sort vs; n = length s
      in if odd n then s ! (n div 2) else (s ! (n div 2 - 1) + s ! (n div 2)) / 2)"

fun reduce_values :: "reducer_kind \<Rightarrow> real list \<Rightarrow> real option" where
  "reduce_values k [] = None"
| "reduce_values MeanReducer (v # vs) = Some (sum_list (v # vs) / real (length (v # vs)))"
| "reduce_values MedianReducer (v # vs) = Some (median_of (v # vs))"
| "reduce_values MaxReducer (v # vs) = Some (fold max vs v)"

definition reduce_collection :: "reducer_kind \<Rightarrow> image list \<Rightarrow> band_map" where
  "reduce_collection k ic =
     (\<lambda>b. if list_ex (\<lambda>i. bands i b \<noteq> None) ic
          then Some (\<lambda>p. reduce_values k (stack_values ic b p)) else None)"

text \<open>\<^verbatim>\<open>collection.mean()\<close>, \<^verbatim>\<open>collection.median()\<close>, \<^verbatim>\<open>collection.max()\<close>.\<close>

definition collection_mean :: "image list \<Rightarrow> band_map" where
  "collection_mean = reduce_collection MeanReducer"

definition collection_median :: "image list \<Rightarrow> band_map" where
  "collection_median = reduce_collection MedianReducer"

definition collection_max :: "image list \<Rightarrow> band_map" where
  "collection_max = reduce_collection MaxReducer"

section \<open>Parts 1 and 2: the monthly CO and NO2 series\<close>

text \<open>
  The spatial reduction at a 5 km scale runs on the platform's own reprojected pixel grid,
  so the chain applied to a filtered collection (temporal mean, band selection,
  \<^verbatim>\<open>reduceRegion\<close>, dictionary lookup) is taken as a parameter: four operations over result
  types of the platform's choosing. What the script fixes is which collection reaches the
  chain and with which arguments.
\<close>

record reduce_args =
  reducer :: reducer_kind
  geometry :: region
  scale :: real
  bestEffort :: bool
  maxPixels :: real

record ('r, 'd, 'v) engine =
  temporal_mean :: "image list \<Rightarrow> 'r"
  select_band :: "string \<Rightarrow> 'r \<Rightarrow> 'r"
  reduceRegion :: "reduce_args \<Rightarrow> 'r \<Rightarrow> 'd"
  get :: "string \<Rightarrow> 'd \<Rightarrow> 'v"

text \<open>\<^verbatim>\<open>co_collection = ee.ImageCollection(co).filterBounds(aoi).filterDate(timeSeriesStart, timeSeriesEnd)\<close>\<close>

definition co_collection :: "region \<Rightarrow> image list \<Rightarrow> image list" where
  "co_collection aoi co = filterDate timeSeriesStart timeSeriesEnd (filterBounds aoi co)"

text \<open>The callback mapped over \<open>months\<close> for CO (lines 74 to 94), and the mapped list.\<close>

definition monthlyCOValue :: "('r, 'd, 'v) engine \<Rightarrow> region \<Rightarrow> image list \<Rightarrow> int \<Rightarrow> 'v" where
  "monthlyCOValue E aoi co month =
     (let filtered = filterDate (monthStart month) (monthEnd month) (co_collection aoi co);
          meanCO = select_band E ''CO_column_number_density'' (temporal_mean E filtered)
      in get E ''CO_column_number_density''
           (reduceRegion E
              \<lparr>reducer = MeanReducer, geometry = aoi, scale = 5000, bestEffort = True,
               maxPixels = 10 ^ 8\<rparr> meanCO))"

definition monthlyCO :: "('r, 'd, 'v) engine \<Rightarrow> region \<Rightarrow> image list \<Rightarrow> 'v list" where
  "monthlyCO E aoi co = map (monthlyCOValue E aoi co) months"

text \<open>The same for NO2 (lines 149 to 174).\<close>

definition no2_collection :: "region \<Rightarrow> image list \<Rightarrow> image list" where
  "no2_collection aoi no2 = filterDate timeSeriesStart timeSeriesEnd (filterBounds aoi no2)"

definition monthlyNO2Value :: "('r, 'd, 'v) engine \<Rightarrow> region \<Rightarrow> image list \<Rightarrow> int \<Rightarrow> 'v" where
  "monthlyNO2Value E aoi no2 month =
     (let filtered = filterDate (monthStart month) (monthEnd month) (no2_collection aoi no2);
          meanNO2 = select_band E ''NO2_column_number_density'' (temporal_mean E filtered)
      in get E ''NO2_column_number_density''
           (reduceRegion E
              \<lparr>reducer = MeanReducer, geometry = aoi, scale = 5000, bestEffort = True,
               maxPixels = 10 ^ 8\<rparr> meanNO2))"

definition monthlyNO2 :: "('r, 'd, 'v) engine \<Rightarrow> region \<Rightarrow> image list \<Rightarrow> 'v list" where
  "monthlyNO2 E aoi no2 = map (monthlyNO2Value E aoi no2) months"

text \<open>
  The per-bucket aggregation in the words of the specification: filter the source collection
  to the bucket's sub-window and the region, take the temporal mean composite, select the
  band, and reduce it over the region with an areal mean at 5 km, a pixel ceiling and the
  best-effort flag.
\<close>

definition spec_aggregate ::
    "('r, 'd, 'v) engine \<Rightarrow> string \<Rightarrow> image list \<Rightarrow> region \<Rightarrow> instant \<times> instant \<Rightarrow> real \<Rightarrow> 'v" where
  "spec_aggregate E band source rgn bucket pixel_ceiling =
     (let stack = filter (\<lambda>i. fst bucket \<le> time_start i \<and> time_start i < snd bucket
                            \<and> footprint i \<inter> rgn \<noteq> {}) source;
          composite = select_band E band (temporal_mean E stack)
      in get E band
           (reduceRegion E
              \<lparr>reducer = MeanReducer, geometry = rgn, scale = 5000, bestEffort = True,
               maxPixels = pixel_ceiling\<rparr> composite))"

section \<open>Parts 3 to 7: the fire-period composites\<close>

text \<open>\<^verbatim>\<open>var fireStart = '2019-12-15'; var fireEnd = '2020-01-10';\<close>
  The script's \<open>roi\<close> and \<open>geometry\<close> are both the polygon \<open>aoi\<close>.\<close>

definition fireStart :: instant where
  "fireStart = (2019, 12, 15, 0)"

definition fireEnd :: instant where
  "fireEnd = (2020, 1, 10, 0)"

definition collection_CO_fire :: "image list \<Rightarrow> region \<Rightarrow> band_map" where
  "collection_CO_fire nrti_co roi =
     collection_mean
       (filterDate fireStart fireEnd
          (filterBounds roi (select_images ''CO_column_number_density'' nrti_co)))"

definition clip_CO :: "image list \<Rightarrow> region \<Rightarrow> band_map" where
  "clip_CO nrti_co roi = clip roi (collection_CO_fire nrti_co roi)"

definition collection_NO2_fire :: "image list \<Rightarrow> region \<Rightarrow> band_map" where
  "collection_NO2_fire nrti_no2 roi =
     collection_mean
       (filterDate fireStart fireEnd
          (filterBounds roi (select_images ''NO2_column_number_density'' nrti_no2)))"

definition clip_NO2 :: "image list \<Rightarrow> region \<Rightarrow> band_map" where
  "clip_NO2 nrti_no2 roi = clip roi (collection_NO2_fire nrti_no2 roi)"

definition sentinel5p_aer :: "image list \<Rightarrow> region \<Rightarrow> band_map" where
  "sentinel5p_aer aer_ai geom =
     collection_mean
       (filterBounds geom
          (filterDate (2019, 12, 1, 0) fireEnd (select_images ''absorbing_aerosol_index'' aer_ai)))"

definition sent_aer :: "image list \<Rightarrow> region \<Rightarrow> band_map" where
  "sent_aer aer_ai geom = clip geom (sentinel5p_aer aer_ai geom)"

text \<open>Landsat 8 (lines 299 to 326).\<close>

definition landsatFire :: "image list \<Rightarrow> region \<Rightarrow> image list" where
  "landsatFire l8 roi =
     filterMetadata ''CLOUD_COVER'' LESS_THAN 30 (filterBounds roi (filterDate fireStart fireEnd l8))"

definition applyScaleFactors :: "image \<Rightarrow> ee_error + image" where
  "applyScaleFactors img =
     (case select ''SR_B.'' img of
        Inl e \<Rightarrow> Inl e
      | Inr optical \<Rightarrow>
          (case select ''ST_B.*'' img of
             Inl e \<Rightarrow> Inl e
           | Inr thermal \<Rightarrow>
               let opticalBands = add (- 0.2) (multiply 0.0000275 optical);
                   thermalBands = add 149.0 (multiply 0.00341802 thermal)
               in Inr (addBands_overwrite (addBands_overwrite img opticalBands) thermalBands)))"

definition landsatFireScaled :: "image list \<Rightarrow> region \<Rightarrow> ee_error + image list" where
  "landsatFireScaled l8 roi = map_images applyScaleFactors (landsatFire l8 roi)"

text \<open>
  The two Landsat layers put the same expression on the map,
  \<^verbatim>\<open>landsatFireScaled.median().clip(roi)\<close>, and differ in the three bands they display.
\<close>

definition landsat_RGB :: "image list \<Rightarrow> region \<Rightarrow> ee_error + band_map" where
  "landsat_RGB l8 roi =
     (case landsatFireScaled l8 roi of
        Inl e \<Rightarrow> Inl e
      | Inr scaled \<Rightarrow> Inr (clip roi (collection_median scaled)))"

definition landsat_false_color :: "image list \<Rightarrow> region \<Rightarrow> ee_error + band_map" where
  "landsat_false_color l8 roi =
     (case landsatFireScaled l8 roi of
        Inl e \<Rightarrow> Inl e
      | Inr scaled \<Rightarrow> Inr (clip roi (collection_median scaled)))"

text \<open>
  The multispectral composite as the specification words it, with the temporal mean in
  the place of the script's reducer.
\<close>

definition spec_landsat_composite :: "image list \<Rightarrow> region \<Rightarrow> ee_error + band_map" where
  "spec_landsat_composite l8 roi =
     (case landsatFireScaled l8 roi of
        Inl e \<Rightarrow> Inl e
      | Inr scaled \<Rightarrow> Inr (clip roi (collection_mean scaled)))"

text \<open>
  Reading one pixel of a layer, or of a rescaled image, that may have raised, and testing
  that a layer's pixel is unmasked with a value between two bounds.
\<close>

definition layer_pixel :: "ee_error + band_map \<Rightarrow> string \<Rightarrow> pixel \<Rightarrow> ee_error + real option" where
  "layer_pixel layer b p = (case layer of Inl e \<Rightarrow> Inl e | Inr c \<Rightarrow> Inr (pixel_at c b p))"

definition scaled_pixel :: "image \<Rightarrow> string \<Rightarrow> pixel \<Rightarrow> ee_error + real option" where
  "scaled_pixel img b p =
     (case applyScaleFactors img of Inl e \<Rightarrow> Inl e | Inr scaled \<Rightarrow> Inr (pixel_at (bands scaled) b p))"

definition layer_pixel_between :: "ee_error + band_map \<Rightarrow> string \<Rightarrow> pixel \<Rightarrow> real \<Rightarrow> real \<Rightarrow> bool" where
  "layer_pixel_between layer b p lo hi =
     (case layer_pixel layer b p of Inr (Some v) \<Rightarrow> lo \<le> v \<and> v \<le> hi | _ \<Rightarrow> False)"

text \<open>MODIS fire radiative power (lines 340 to 346).\<close>

definition modisFire :: "image list \<Rightarrow> region \<Rightarrow> band_map" where
  "modisFire mod14 roi =
     collection_max (filterBounds roi (select_images ''MaxFRP'' (filterDate fireStart fireEnd mod14)))"

definition modisFire_roi :: "image list \<Rightarrow> region \<Rightarrow> band_map" where
  "modisFire_roi mod14 roi = clip roi (modisFire mod14 roi)"

subsection \<open>Sample inputs\<close>

text \<open>One-pixel images used to run the definitions on concrete collections.\<close>

definition one_pixel_image :: "instant \<Rightarrow> real \<Rightarrow> string \<Rightarrow> real \<Rightarrow> image" where
  "one_pixel_image t cloud b v =
     \<lparr>time_start = t, footprint = {(0, 0)},
      properties = [''CLOUD_COVER'' \<mapsto> cloud],
      band_names = [b],
      bands = [b \<mapsto> (\<lambda>p. if p = (0, 0) then Some v else None)]\<rparr>"

text \<open>
  A one-pixel Landsat image with a red band and a thermal band, given as raw digital
  numbers.
\<close>

definition landsat_pixel_image :: "instant \<Rightarrow> real \<Rightarrow> real \<Rightarrow> real \<Rightarrow> image" where
  "landsat_pixel_image t cloud red thermal =
     \<lparr>time_start = t, footprint = {(0, 0)},
      properties = [''CLOUD_COVER'' \<mapsto> cloud],
      band_names = [''SR_B4'', ''ST_B10''],
      bands = [''SR_B4'' \<mapsto> (\<lambda>p. if p = (0, 0) then Some red else None),
               ''ST_B10'' \<mapsto> (\<lambda>p. if p = (0, 0) then Some thermal else None)]\<rparr>"

definition sample_l8 :: "image list" where
  "sample_l8 =
     [landsat_pixel_image (2019, 12, 20, 0) 5 10000 44000,
      landsat_pixel_image (2019, 12, 28, 0) 10 10000 44000,
      landsat_pixel_image (2020, 1, 5, 0) 20 40000 44000]"

definition sample_mod14 :: "image list" where
  "sample_mod14 =
     [one_pixel_image (2019, 11, 30, 0) 0 ''MaxFRP'' 900,
      one_pixel_image (2019, 12, 31, 0) 0 ''MaxFRP'' 412]"

definition sample_co :: "image list" where
  "sample_co =
     [one_pixel_image (2019, 12, 31, 0) 0 ''CO_column_number_density'' (1 / 20),
      one_pixel_image (2022, 3, 4, 0) 0 ''CO_column_number_density'' (1 / 50)]"

definition sample_co' :: "image list" where
  "sample_co' =
     [one_pixel_image (2019, 12, 31, 0) 0 ''CO_column_number_density'' (1 / 20),
      one_pixel_image (2023, 7, 9, 0) 0 ''CO_column_number_density'' (3 / 4)]"

text \<open>An image of constant raw digital numbers: 20000 in an optical band, 44000 in a thermal one.\<close>

definition sample_dn_image :: image where
  "sample_dn_image =
     \<lparr>time_start = (2019, 12, 20, 0), footprint = UNIV,
      properties = [''CLOUD_COVER'' \<mapsto> 5],
      band_names = [''SR_B4'', ''ST_B10''],
      bands = [''SR_B4'' \<mapsto> (\<lambda>p. Some 20000), ''ST_B10'' \<mapsto> (\<lambda>p. Some 44000)]\<rparr>"

text \<open>An engine that hands the filtered stack's acquisition instants through unchanged.\<close>

definition trace_engine :: "(instant list, instant list, instant list) engine" where
  "trace_engine =
     \<lparr>temporal_mean = map time_start, select_band = (\<lambda>b r. r),
      reduceRegion = (\<lambda>a r. r), get = (\<lambda>b d. d)\<rparr>"

section \<open>Calendar facts about the buckets\<close>

lemma year_div: "year month = month div 12 + 2019"
  by (simp add: year_def floor_divide_of_int_eq[of month 12, simplified])

lemma months_eq:
  "months = [0,1,2,3,4,5,6,7,8,9,10,11,12,13,14,15,16,17,18,19,20,21,22,23]"
  unfolding months_def by (simp add: upto.simps)

lemma set_months: "month \<in> set months \<longleftrightarrow> 0 \<le> month \<and> month \<le> 23"
  by (simp add: months_def)

lemma monthStart_eq: "monthStart month = (month div 12 + 2019, month mod 12 + 1, 1, 0)"
  by (simp add: monthStart_def fromYMD_def year_div monthOfYear_def)

lemma days_in_month_ge: "1 \<le> days_in_month y m"
  by (simp add: days_in_month_def)

lemma monthEnd_next: "monthEnd month = monthStart (month + 1)"
proof -
  have t: "(month div 12 + 2019) * 12 + (month mod 12 + 1 - 1) + 1 = (month + 1) + 2019 * 12"
    by (simp add: algebra_simps)
  have d: "((month + 1) + 2019 * 12) div 12 = (month + 1) div 12 + 2019"
    using div_mult_self1[of 12 "month + 1" 2019] by simp
  have m: "((month + 1) + 2019 * 12) mod 12 = (month + 1) mod 12"
    using mod_mult_self1[of "month + 1" 2019 12] by simp
  have "advance_month 1 (month div 12 + 2019, month mod 12 + 1, 1, 0) =
          ((month + 1) div 12 + 2019, (month + 1) mod 12 + 1,
           min 1 (days_in_month ((month + 1) div 12 + 2019) ((month + 1) mod 12 + 1)), 0)"
    unfolding advance_month_def by (simp only: prod.case Let_def t d m)
  then show ?thesis
    by (simp add: monthEnd_def monthStart_eq min_absorb1 days_in_month_ge)
qed

lemma monthStart_mono: "m \<le> m' \<Longrightarrow> monthStart m \<le> monthStart m'"
proof -
  assume le: "m \<le> m'"
  have "m div 12 \<le> m' div 12" using le by (simp add: zdiv_mono1)
  moreover have "m div 12 = m' div 12 \<Longrightarrow> m mod 12 \<le> m' mod 12"
    using le by (metis add_le_cancel_left mult_div_mod_eq)
  ultimately show ?thesis
    unfolding monthStart_eq by (auto simp: less_le)
qed

lemma monthStart_strict: "m < m' \<Longrightarrow> monthStart m < monthStart m'"
proof -
  assume lt: "m < m'"
  have le: "monthStart m \<le> monthStart m'" using lt by (simp add: monthStart_mono)
  have "monthStart m \<noteq> monthStart m'"
  proof
    assume "monthStart m = monthStart m'"
    then have "m div 12 = m' div 12" "m mod 12 = m' mod 12"
      by (simp_all add: monthStart_eq)
    then have "m = m'" by (metis mult_div_mod_eq)
    with lt show False by simp
  qed
  with le show ?thesis by simp
qed

lemma bucket_exists:
  "monthStart 0 \<le> t \<Longrightarrow> t < monthStart (int n) \<Longrightarrow>
     \<exists>k. 0 \<le> k \<and> k < int n \<and> monthStart k \<le> t \<and> t < monthStart (k + 1)"
proof (induction n)
  case 0
  then show ?case by simp
next
  case (Suc n)
  show ?case
  proof (cases "t < monthStart (int n)")
    case True
    with Suc obtain k where "0 \<le> k" "k < int n" "monthStart k \<le> t" "t < monthStart (k + 1)"
      by blast
    then show ?thesis by (intro exI[of _ k]) simp
  next
    case False
    then have "monthStart (int n) \<le> t" by simp
    moreover have "t < monthStart (int n + 1)" using Suc.prems(2) by (simp add: add.commute)
    ultimately show ?thesis by (intro exI[of _ "int n"]) simp
  qed
qed

lemma bucket_unique:
  assumes "in_bucket m t" "in_bucket m' t"
  shows "m = m'"
proof (rule ccontr)
  assume ne: "m \<noteq> m'"
  have disj: "\<not> (in_bucket a t \<and> in_bucket b t)" if "a < b" for a b
  proof
    assume h: "in_bucket a t \<and> in_bucket b t"
    have "monthStart (a + 1) \<le> monthStart b" using that by (simp add: monthStart_mono)
    moreover have "t < monthStart (a + 1)" using h by (simp add: in_bucket_def monthEnd_next)
    moreover have "monthStart b \<le> t" using h by (simp add: in_bucket_def)
    ultimately show False by simp
  qed
  from ne have "m < m' \<or> m' < m" by auto
  with disj assms show False by blast
qed

lemma filter_single:
  "distinct xs \<Longrightarrow> x \<in> set xs \<Longrightarrow> P x \<Longrightarrow> (\<And>y. y \<in> set xs \<Longrightarrow> P y \<Longrightarrow> y = x) \<Longrightarrow> filter P xs = [x]"
proof (induction xs)
  case Nil
  then show ?case by simp
next
  case (Cons a xs)
  show ?case
  proof (cases "a = x")
    case True
    have "x \<notin> set xs" using Cons.prems(1) True by simp
    then have "\<forall>y\<in>set xs. \<not> P y" using Cons.prems(4) by fastforce
    then have "filter P xs = []" by (simp add: filter_empty_conv)
    with True Cons.prems(3) show ?thesis by simp
  next
    case False
    have "\<not> P a" using Cons.prems(4)[of a] False by auto
    moreover have "filter P xs = [x]"
    proof (rule Cons.IH)
      show "distinct xs" using Cons.prems(1) by simp
      show "x \<in> set xs" using Cons.prems(2) False by simp
      show "P x" by (rule Cons.prems(3))
      show "\<And>y. y \<in> set xs \<Longrightarrow> P y \<Longrightarrow> y = x" using Cons.prems(4) by simp
    qed
    ultimately show ?thesis by simp
  qed
qed

lemma bucket_members_inside:
  assumes "timeSeriesStart \<le> t" "t < (2021, 1, 1, 0)"
  shows "\<exists>m. bucket_members t = [m]"
proof -
  have s0: "monthStart 0 = timeSeriesStart" by (simp add: monthStart_eq timeSeriesStart_def)
  have s24: "monthStart (int 24) = (2021, 1, 1, 0)" by (simp add: monthStart_eq)
  from bucket_exists[of t 24] assms s0 s24
  obtain k where k: "0 \<le> k" "k < 24" "monthStart k \<le> t" "t < monthStart (k + 1)"
    by auto
  have kin: "k \<in> set months" using k by (simp add: set_months)
  have kb: "in_bucket k t" using k by (simp add: in_bucket_def monthEnd_next)
  have "filter (\<lambda>month. in_bucket month t) months = [k]"
    by (rule filter_single) (use kin kb bucket_unique in \<open>auto simp: months_def\<close>)
  then show ?thesis by (auto simp: bucket_members_def)
qed

lemma bucket_members_outside:
  assumes "\<not> (timeSeriesStart \<le> t \<and> t < (2021, 1, 1, 0))"
  shows "bucket_members t = []"
proof -
  have "\<not> in_bucket m t" if "m \<in> set months" for m
  proof
    assume b: "in_bucket m t"
    have "monthStart 0 \<le> monthStart m" using that by (simp add: set_months monthStart_mono)
    moreover have "monthStart m \<le> t" using b by (simp add: in_bucket_def)
    ultimately have "monthStart 0 \<le> t" by (rule order_trans)
    then have 1: "timeSeriesStart \<le> t"
      by (simp add: monthStart_eq[of 0] timeSeriesStart_def)
    have "monthStart (m + 1) \<le> monthStart 24" using that by (simp add: set_months monthStart_mono)
    moreover have "t < monthStart (m + 1)" using b by (simp add: in_bucket_def monthEnd_next)
    ultimately have "t < monthStart 24" by (rule less_le_trans[rotated])
    then have 2: "t < (2021, 1, 1, 0)"
      by (simp add: monthStart_eq[of 24])
    from 1 2 assms show False by simp
  qed
  then show ?thesis by (simp add: bucket_members_def filter_empty_conv)
qed

section \<open>The monthly buckets and labels: claims C3 to C6\<close>

declare digits.simps [simp del]

lemma digits_numeral [simp]:
  "digits (numeral k) =
     (if (numeral k :: nat) < 10 then [digit_char (numeral k)]
      else digits (numeral k div 10) @ [digit_char (numeral k mod 10)])"
  by (rule digits.simps)

lemma digits_small [simp]: "digits 0 = ''0''" "digits 1 = ''1''" "digits (Suc 0) = ''1''"
  by (simp_all add: digits.simps digit_char_def)

lemmas label_eval = monthString_def year_div monthOfYear_def format_d_def format_0d_def digit_char_def

lemma monthLabels_eq:
  "monthLabels =
     [''2019-01'', ''2019-02'', ''2019-03'', ''2019-04'', ''2019-05'', ''2019-06'',
      ''2019-07'', ''2019-08'', ''2019-09'', ''2019-10'', ''2019-11'', ''2019-12'',
      ''2020-01'', ''2020-02'', ''2020-03'', ''2020-04'', ''2020-05'', ''2020-06'',
      ''2020-07'', ''2020-08'', ''2020-09'', ''2020-10'', ''2020-11'', ''2020-12'']"
  unfolding monthLabels_def months_eq by (simp add: label_eval)

lemma starts_sorted: "sorted_wrt (<) (map monthStart months)"
proof -
  have "sorted_wrt (<) months"
    unfolding months_def by (simp add: strict_sorted_iff)
  then show ?thesis
    by (simp add: sorted_wrt_map) (erule sorted_wrt_mono_rel[rotated], simp add: monthStart_strict)
qed

text \<open>
  C3: the series has exactly 24 buckets in chronological order; the first is labelled
  "2019-01" and starts on 2019-01-01, the last is labelled "2020-12" and starts on
  2020-12-01. The bucket list does not read the window constants, so this holds for the
  window 2019-01-01 to 2020-12-31 as for any other.
\<close>

theorem monthly_series_24_buckets:
  "length months = 24 \<and> length monthLabels = 24
   \<and> hd monthLabels = ''2019-01'' \<and> last monthLabels = ''2020-12''
   \<and> monthStart (hd months) = (2019, 1, 1, 0) \<and> monthStart (last months) = (2020, 12, 1, 0)
   \<and> sorted_wrt (<) (map monthStart months)"
proof -
  have "length months = 24" by (simp add: months_eq)
  moreover have "length monthLabels = 24" by (simp add: monthLabels_eq)
  moreover have "hd monthLabels = ''2019-01''" by (simp add: monthLabels_eq)
  moreover have "last monthLabels = ''2020-12''" by (simp add: monthLabels_eq)
  moreover have "monthStart (hd months) = (2019, 1, 1, 0)" by (simp add: months_eq monthStart_eq)
  moreover have "monthStart (last months) = (2020, 12, 1, 0)" by (simp add: months_eq monthStart_eq)
  ultimately show ?thesis using starts_sorted by simp
qed

text \<open>
  C4, as stated, fails on the script's own window: from 2019-01-01 to 2024-12-31 the
  formula gives 71, and the script makes 24 buckets.
\<close>

theorem bucket_count_counterexample:
  "int (length months) \<noteq> spec_bucket_count timeSeriesStart timeSeriesEnd"
  by (simp add: months_eq spec_bucket_count_def timeSeriesStart_def timeSeriesEnd_def)

text \<open>
  C4, amended: the number of buckets is the constant 24, whatever the window constants;
  it equals (end.year*12 + end.month) - (start.year*12 + start.month) for the span the
  buckets themselves cover, from the first bucket's start 2019-01-01 to the last bucket's
  exclusive end 2021-01-01.
\<close>

theorem bucket_count_fixed:
  "length months = 24
   \<and> monthStart (hd months) = (2019, 1, 1, 0) \<and> monthEnd (last months) = (2021, 1, 1, 0)
   \<and> int (length months) = spec_bucket_count (monthStart (hd months)) (monthEnd (last months))"
  by (simp add: months_eq monthEnd_next monthStart_eq spec_bucket_count_def)

lemma label_table:
  "map (\<lambda>month. (monthString month, year month, monthOfYear month)) months =
     [(''2019-01'', 2019, 1), (''2019-02'', 2019, 2), (''2019-03'', 2019, 3),
      (''2019-04'', 2019, 4), (''2019-05'', 2019, 5), (''2019-06'', 2019, 6),
      (''2019-07'', 2019, 7), (''2019-08'', 2019, 8), (''2019-09'', 2019, 9),
      (''2019-10'', 2019, 10), (''2019-11'', 2019, 11), (''2019-12'', 2019, 12),
      (''2020-01'', 2020, 1), (''2020-02'', 2020, 2), (''2020-03'', 2020, 3),
      (''2020-04'', 2020, 4), (''2020-05'', 2020, 5), (''2020-06'', 2020, 6),
      (''2020-07'', 2020, 7), (''2020-08'', 2020, 8), (''2020-09'', 2020, 9),
      (''2020-10'', 2020, 10), (''2020-11'', 2020, 11), (''2020-12'', 2020, 12)]"
  unfolding months_eq by (simp add: label_eval)

lemma label_table_shape:
  "list_all (\<lambda>(s, y, m). is_YYYY_MM s \<and> read_decimal (take 4 s) = y \<and> read_decimal (drop 5 s) = m)
     [(''2019-01'', 2019, 1), (''2019-02'', 2019, 2), (''2019-03'', 2019, 3),
      (''2019-04'', 2019, 4), (''2019-05'', 2019, 5), (''2019-06'', 2019, 6),
      (''2019-07'', 2019, 7), (''2019-08'', 2019, 8), (''2019-09'', 2019, 9),
      (''2019-10'', 2019, 10), (''2019-11'', 2019, 11), (''2019-12'', 2019, 12),
      (''2020-01'', 2020, 1), (''2020-02'', 2020, 2), (''2020-03'', 2020, 3),
      (''2020-04'', 2020, 4), (''2020-05'', 2020, 5), (''2020-06'', 2020, 6),
      (''2020-07'', 2020, 7), (''2020-08'', 2020, 8), (''2020-09'', 2020, 9),
      (''2020-10'', 2020, 10), (''2020-11'', 2020, 11), (''2020-12'', 2020, 12)]"
  by (simp add: is_YYYY_MM_def is_digit_def read_decimal_def digit_value_def)

lemma label_shape:
  "\<forall>month\<in>set months.
     is_YYYY_MM (monthString month)
     \<and> read_decimal (take 4 (monthString month)) = year month
     \<and> read_decimal (drop 5 (monthString month)) = monthOfYear month"
proof -
  have "list_all (\<lambda>(s, y, m). is_YYYY_MM s \<and> read_decimal (take 4 s) = y \<and> read_decimal (drop 5 s) = m)
          (map (\<lambda>month. (monthString month, year month, monthOfYear month)) months)"
    by (simp only: label_table label_table_shape)
  then show ?thesis by (simp add: list_all_iff)
qed

text \<open>
  C5: for every bucket index of the series the label is four digits, a dash and two
  digits, reading back as the bucket's year and its month padded with a zero; index 11 is
  bucket (2019, 12) with label "2019-12" and index 12 is bucket (2020, 1) with label
  "2020-01".
\<close>

theorem month_label_format:
  "(\<forall>month\<in>set months.
      is_YYYY_MM (monthString month)
      \<and> read_decimal (take 4 (monthString month)) = year month
      \<and> read_decimal (drop 5 (monthString month)) = monthOfYear month)
   \<and> (year 11 = 2019 \<and> monthOfYear 11 = 12 \<and> monthString 11 = ''2019-12'')
   \<and> (year 12 = 2020 \<and> monthOfYear 12 = 1 \<and> monthString 12 = ''2020-01'')"
proof -
  have "year 11 = 2019 \<and> monthOfYear 11 = 12 \<and> monthString 11 = ''2019-12''"
    by (simp add: label_eval)
  moreover have "year 12 = 2020 \<and> monthOfYear 12 = 1 \<and> monthString 12 = ''2020-01''"
    by (simp add: label_eval)
  ultimately show ?thesis using label_shape by blast
qed

text \<open>The label theorem used at bucket index 11.\<close>

theorem month_label_format_witness:
  "(11::int) \<in> set months \<and> is_YYYY_MM (monthString 11)
   \<and> read_decimal (take 4 (monthString 11)) = 2019 \<and> read_decimal (drop 5 (monthString 11)) = 12"
proof -
  have m: "(11::int) \<in> set months" by (simp add: set_months)
  from month_label_format m
  have "is_YYYY_MM (monthString 11) \<and> read_decimal (take 4 (monthString 11)) = year 11
        \<and> read_decimal (drop 5 (monthString 11)) = monthOfYear 11" by blast
  moreover from month_label_format have "year 11 = 2019 \<and> monthOfYear 11 = 12" by blast
  ultimately show ?thesis using m by simp
qed

text \<open>
  C6, as stated, fails on the script's own window: 2021-06-15 lies in the time-series
  window 2019-01-01 to 2024-12-31 and in no bucket.
\<close>

theorem buckets_cover_window_counterexample:
  "timeSeriesStart \<le> (2021, 6, 15, 0) \<and> (2021, 6, 15, 0) < timeSeriesEnd
   \<and> bucket_members (2021, 6, 15, 0) = []"
proof -
  have "bucket_members (2021, 6, 15, 0) = []"
    by (rule bucket_members_outside) (simp add: timeSeriesStart_def)
  then show ?thesis by (simp add: timeSeriesStart_def timeSeriesEnd_def)
qed

lemma next_div_mod:
  fixes month :: int
  shows "(month + 1) div 12 = (if month mod 12 = 11 then month div 12 + 1 else month div 12)
       \<and> (month + 1) mod 12 = (if month mod 12 = 11 then 0 else month mod 12 + 1)"
proof -
  define q where "q = month div 12"
  define r where "r = month mod 12"
  have split: "month = 12 * q + r" by (simp add: q_def r_def)
  have range: "0 \<le> r" "r < 12" by (simp_all add: r_def)
  show ?thesis
  proof (cases "r = 11")
    case True
    have eq: "month + 1 = 12 * (q + 1) + 0" using split True by simp
    have "(month + 1) div 12 = q + 1" by (rule int_div_pos_eq[OF eq]) simp_all
    moreover have "(month + 1) mod 12 = 0" by (rule int_mod_pos_eq[OF eq]) simp_all
    ultimately show ?thesis using True by (simp add: q_def r_def)
  next
    case False
    have eq: "month + 1 = 12 * q + (r + 1)" using split by simp
    have small: "0 \<le> r + 1" "r + 1 < 12" using range False by simp_all
    have "(month + 1) div 12 = q" by (rule int_div_pos_eq[OF eq small])
    moreover have "(month + 1) mod 12 = r + 1" by (rule int_mod_pos_eq[OF eq small])
    ultimately show ?thesis using False by (simp add: q_def r_def)
  qed
qed

lemmas next_div = next_div_mod[THEN conjunct1]
lemmas next_mod = next_div_mod[THEN conjunct2]

lemma bucket_is_calendar_month:
  "monthStart month = (year month, monthOfYear month, 1, 0)
   \<and> monthEnd month =
       (if monthOfYear month = 12 then (year month + 1, 1, 1, 0)
        else (year month, monthOfYear month + 1, 1, 0))
   \<and> monthStart month < monthEnd month"
proof -
  have 1: "monthStart month = (year month, monthOfYear month, 1, 0)"
    by (simp add: monthStart_def fromYMD_def)
  have 2: "monthEnd month =
       (if monthOfYear month = 12 then (year month + 1, 1, 1, 0)
        else (year month, monthOfYear month + 1, 1, 0))"
    by (simp add: monthEnd_next monthStart_eq year_div monthOfYear_def next_div next_mod)
  have 3: "monthStart month < monthEnd month"
    by (simp add: monthEnd_next monthStart_strict)
  from 1 2 3 show ?thesis by blast
qed

text \<open>
  C6, amended: every bucket starts on the first day of its calendar month and ends on the
  first day of the next one (its start advanced by one calendar month), each bucket's end
  is the next bucket's start, the starts increase strictly, and the buckets tile exactly
  the 24 months from 2019-01-01 (the start of the time-series window) to 2021-01-01
  (exclusive): an instant of that span is in exactly one bucket, any other instant in none.
\<close>

theorem buckets_tile_24_months:
  "(\<forall>month\<in>set months.
      monthStart month = (year month, monthOfYear month, 1, 0)
      \<and> monthEnd month =
          (if monthOfYear month = 12 then (year month + 1, 1, 1, 0)
           else (year month, monthOfYear month + 1, 1, 0))
      \<and> monthStart month < monthEnd month
      \<and> (month + 1 \<in> set months \<longrightarrow> monthEnd month = monthStart (month + 1)))
   \<and> sorted_wrt (<) (map monthStart months)
   \<and> monthStart (hd months) = timeSeriesStart
   \<and> monthEnd (last months) = (2021, 1, 1, 0)
   \<and> (\<forall>t. length (bucket_members t) = (if timeSeriesStart \<le> t \<and> t < (2021, 1, 1, 0) then 1 else 0))"
proof -
  have a: "\<forall>month\<in>set months.
      monthStart month = (year month, monthOfYear month, 1, 0)
      \<and> monthEnd month =
          (if monthOfYear month = 12 then (year month + 1, 1, 1, 0)
           else (year month, monthOfYear month + 1, 1, 0))
      \<and> monthStart month < monthEnd month
      \<and> (month + 1 \<in> set months \<longrightarrow> monthEnd month = monthStart (month + 1))"
  proof (intro ballI conjI impI)
    fix month
    note cal = bucket_is_calendar_month[of month]
    show "monthStart month = (year month, monthOfYear month, 1, 0)"
      by (rule cal[THEN conjunct1])
    show "monthEnd month =
          (if monthOfYear month = 12 then (year month + 1, 1, 1, 0)
           else (year month, monthOfYear month + 1, 1, 0))"
      by (rule cal[THEN conjunct2, THEN conjunct1])
    show "monthStart month < monthEnd month"
      by (rule cal[THEN conjunct2, THEN conjunct2])
    show "monthEnd month = monthStart (month + 1)"
      by (rule monthEnd_next)
  qed
  have b: "monthStart (hd months) = timeSeriesStart"
    by (simp add: months_eq monthStart_eq timeSeriesStart_def)
  have c: "monthEnd (last months) = (2021, 1, 1, 0)"
    by (simp add: months_eq monthEnd_next monthStart_eq)
  have e: "length (bucket_members t) = (if timeSeriesStart \<le> t \<and> t < (2021, 1, 1, 0) then 1 else 0)" for t
  proof (cases "timeSeriesStart \<le> t \<and> t < (2021, 1, 1, 0)")
    case True
    then obtain m where "bucket_members t = [m]" using bucket_members_inside by blast
    with True show ?thesis by simp
  next
    case False
    then have "bucket_members t = []" by (rule bucket_members_outside)
    with False show ?thesis by simp
  qed
  show ?thesis
    by (intro conjI allI) (rule a, rule starts_sorted, rule b, rule c, rule e)
qed

text \<open>The tiling theorem used at bucket index 11 and at the instant 2019-12-31.\<close>

theorem buckets_tile_24_months_witness:
  "(11::int) \<in> set months \<and> 11 + 1 \<in> set months \<and> monthEnd 11 = monthStart (11 + 1)
   \<and> monthStart 11 = (2019, 12, 1, 0) \<and> monthEnd 11 = (2020, 1, 1, 0)
   \<and> timeSeriesStart \<le> (2019, 12, 31, 0) \<and> (2019, 12, 31, 0) < ((2021, 1, 1, 0) :: instant)
   \<and> length (bucket_members (2019, 12, 31, 0)) = 1"
proof -
  have m: "(11::int) \<in> set months" "(11::int) + 1 \<in> set months" by (simp_all add: set_months)
  have t: "timeSeriesStart \<le> (2019, 12, 31, 0) \<and> (2019, 12, 31, 0) < ((2021, 1, 1, 0) :: instant)"
    by (simp add: timeSeriesStart_def)
  have ym: "year 11 = 2019" "monthOfYear 11 = 12" by (simp_all add: year_div monthOfYear_def)
  from buckets_tile_24_months
  have "\<forall>month\<in>set months.
      monthStart month = (year month, monthOfYear month, 1, 0)
      \<and> monthEnd month =
          (if monthOfYear month = 12 then (year month + 1, 1, 1, 0)
           else (year month, monthOfYear month + 1, 1, 0))
      \<and> monthStart month < monthEnd month
      \<and> (month + 1 \<in> set months \<longrightarrow> monthEnd month = monthStart (month + 1))" by (elim conjE)
  with m
  have 1: "monthStart 11 = (year 11, monthOfYear 11, 1, 0)
      \<and> monthEnd 11 =
          (if monthOfYear 11 = 12 then (year 11 + 1, 1, 1, 0)
           else (year 11, monthOfYear 11 + 1, 1, 0))
      \<and> monthEnd 11 = monthStart (11 + 1)" by blast
  from buckets_tile_24_months
  have "length (bucket_members (2019, 12, 31, 0)) =
          (if timeSeriesStart \<le> (2019, 12, 31, 0) \<and> (2019, 12, 31, 0) < ((2021, 1, 1, 0) :: instant) then 1 else 0)"
    by (elim conjE) (erule allE)
  with t have 2: "length (bucket_members (2019, 12, 31, 0)) = 1" by simp
  have s12: "monthStart (11 + 1) = (2020, 1, 1, 0)" by (simp add: monthStart_eq)
  from 1 2 m t ym s12 show ?thesis by simp
qed

section \<open>The monthly series: claims C7 and C10\<close>

lemma bucket_in_window:
  assumes "month \<in> set months"
  shows "timeSeriesStart \<le> monthStart month" "monthEnd month \<le> (2021, 1, 1, 0)"
    "monthEnd month \<le> timeSeriesEnd"
proof -
  have "monthStart 0 \<le> monthStart month"
    using assms by (simp add: set_months monthStart_mono)
  then show "timeSeriesStart \<le> monthStart month"
    by (simp add: monthStart_eq[of 0] timeSeriesStart_def)
  have "monthStart (month + 1) \<le> monthStart 24"
    using assms by (simp add: set_months monthStart_mono)
  then show e: "monthEnd month \<le> (2021, 1, 1, 0)"
    by (simp add: monthEnd_next monthStart_eq[of 24])
  have "((2021, 1, 1, 0) :: instant) \<le> timeSeriesEnd" by (simp add: timeSeriesEnd_def)
  with e show "monthEnd month \<le> timeSeriesEnd" by (rule order_trans)
qed

lemma bucket_stack:
  assumes "month \<in> set months"
  shows "filterDate (monthStart month) (monthEnd month)
           (filterDate timeSeriesStart timeSeriesEnd (filterBounds aoi src)) =
         filter (\<lambda>i. monthStart month \<le> time_start i \<and> time_start i < monthEnd month
                      \<and> footprint i \<inter> aoi \<noteq> {}) src"
proof -
  note w = bucket_in_window[OF assms]
  have inside: "timeSeriesStart \<le> t \<and> t < timeSeriesEnd"
    if "monthStart month \<le> t" "t < monthEnd month" for t
  proof
    show "timeSeriesStart \<le> t" using w(1) that(1) by (rule order_trans)
    show "t < timeSeriesEnd" using that(2) w(3) by (rule less_le_trans)
  qed
  have "filter (\<lambda>i. (footprint i \<inter> aoi \<noteq> {}
                      \<and> timeSeriesStart \<le> time_start i \<and> time_start i < timeSeriesEnd)
                     \<and> monthStart month \<le> time_start i \<and> time_start i < monthEnd month) src =
        filter (\<lambda>i. monthStart month \<le> time_start i \<and> time_start i < monthEnd month
                      \<and> footprint i \<inter> aoi \<noteq> {}) src"
    by (rule filter_cong[OF refl]) (use inside in blast)
  then show ?thesis
    by (simp add: filterDate_def filterBounds_def)
qed

lemma monthlyCOValue_spec:
  assumes "month \<in> set months"
  shows "monthlyCOValue E aoi co month =
         spec_aggregate E ''CO_column_number_density'' co aoi (monthStart month, monthEnd month) (10 ^ 8)"
  by (simp add: monthlyCOValue_def co_collection_def spec_aggregate_def bucket_stack[OF assms] Let_def)

lemma monthlyNO2Value_spec:
  assumes "month \<in> set months"
  shows "monthlyNO2Value E aoi no2 month =
         spec_aggregate E ''NO2_column_number_density'' no2 aoi (monthStart month, monthEnd month) (10 ^ 8)"
  by (simp add: monthlyNO2Value_def no2_collection_def spec_aggregate_def bucket_stack[OF assms] Let_def)

text \<open>
  C7: each entry of the CO series and of the NO2 series is the aggregation of its own
  bucket alone: the source collection filtered to the bucket's sub-window and the region,
  the temporal mean composite, the selected band, and the spatial reduction over the region
  with the mean reducer, scale 5000, the maxPixels ceiling (1e8) and bestEffort set. The
  script's earlier filter to the time-series window removes nothing a bucket keeps.
\<close>

theorem monthly_aggregation_steps:
  "monthlyCO E aoi co =
     map (\<lambda>month. spec_aggregate E ''CO_column_number_density'' co aoi
                    (monthStart month, monthEnd month) (10 ^ 8)) months
   \<and> monthlyNO2 E aoi no2 =
     map (\<lambda>month. spec_aggregate E ''NO2_column_number_density'' no2 aoi
                    (monthStart month, monthEnd month) (10 ^ 8)) months"
  by (simp add: monthlyCO_def monthlyNO2_def monthlyCOValue_spec monthlyNO2Value_spec)

lemma spec_aggregate_early:
  assumes "snd bucket \<le> limit"
  shows "spec_aggregate E band (filter (\<lambda>i. time_start i < limit) src) rgn bucket c =
         spec_aggregate E band src rgn bucket c"
proof -
  have "filter (\<lambda>i. time_start i < limit \<and> fst bucket \<le> time_start i \<and> time_start i < snd bucket
                      \<and> footprint i \<inter> rgn \<noteq> {}) src =
        filter (\<lambda>i. fst bucket \<le> time_start i \<and> time_start i < snd bucket
                      \<and> footprint i \<inter> rgn \<noteq> {}) src"
    by (rule filter_cong[OF refl]) (use assms less_le_trans in blast)
  then show ?thesis
    by (simp add: spec_aggregate_def)
qed

text \<open>
  C10: two collections that hold the same imagery dated before 2021-01-01, whatever they
  hold from that day on, give identical CO and NO2 series, for every engine.
\<close>

theorem samples_ignore_later_imagery:
  assumes "filter (\<lambda>i. time_start i < (2021, 1, 1, 0)) co = filter (\<lambda>i. time_start i < (2021, 1, 1, 0)) co'"
    and "filter (\<lambda>i. time_start i < (2021, 1, 1, 0)) no2 = filter (\<lambda>i. time_start i < (2021, 1, 1, 0)) no2'"
  shows "monthlyCO E aoi co = monthlyCO E aoi co' \<and> monthlyNO2 E aoi no2 = monthlyNO2 E aoi no2'"
proof -
  have v: "spec_aggregate E band src aoi (monthStart month, monthEnd month) c =
           spec_aggregate E band (filter (\<lambda>i. time_start i < (2021, 1, 1, 0)) src) aoi
             (monthStart month, monthEnd month) c"
    if "month \<in> set months" for month band src c
    by (rule spec_aggregate_early[symmetric]) (simp add: bucket_in_window(2)[OF that])
  have "monthlyCOValue E aoi co month = monthlyCOValue E aoi co' month" if "month \<in> set months" for month
    using that v[OF that, of _ co] v[OF that, of _ co'] assms(1) by (simp add: monthlyCOValue_spec)
  moreover have "monthlyNO2Value E aoi no2 month = monthlyNO2Value E aoi no2' month" if "month \<in> set months" for month
    using that v[OF that, of _ no2] v[OF that, of _ no2'] assms(2) by (simp add: monthlyNO2Value_spec)
  ultimately show ?thesis by (simp add: monthlyCO_def monthlyNO2_def)
qed

lemma sample_co_early:
  "filter (\<lambda>i. time_start i < (2021, 1, 1, 0)) sample_co =
   [one_pixel_image (2019, 12, 31, 0) 0 ''CO_column_number_density'' (1 / 20)]"
  "filter (\<lambda>i. time_start i < (2021, 1, 1, 0)) sample_co' =
   [one_pixel_image (2019, 12, 31, 0) 0 ''CO_column_number_density'' (1 / 20)]"
  by (simp_all add: sample_co_def sample_co'_def one_pixel_image_def)

text \<open>
  Two collections that share an image of 2019-12-31 and differ in an image of 2022 against
  one of 2023.
\<close>

theorem samples_ignore_later_imagery_witness:
  "filter (\<lambda>i. time_start i < (2021, 1, 1, 0)) sample_co = filter (\<lambda>i. time_start i < (2021, 1, 1, 0)) sample_co'
   \<and> map time_start sample_co \<noteq> map time_start sample_co'
   \<and> monthlyCO trace_engine {(0, 0)} sample_co = monthlyCO trace_engine {(0, 0)} sample_co'
   \<and> monthlyNO2 trace_engine {(0, 0)} sample_co = monthlyNO2 trace_engine {(0, 0)} sample_co'"
proof -
  have h: "filter (\<lambda>i. time_start i < (2021, 1, 1, 0)) sample_co = filter (\<lambda>i. time_start i < (2021, 1, 1, 0)) sample_co'"
    by (simp only: sample_co_early)
  have d: "map time_start sample_co \<noteq> map time_start sample_co'"
    by (simp add: sample_co_def sample_co'_def one_pixel_image_def)
  from samples_ignore_later_imagery[OF h h, of trace_engine "{(0, 0)}"] h d show ?thesis by simp
qed

section \<open>Pixel-level facts about the band operations\<close>

lemma pixel_at_clip: "pixel_at (clip g bm) b p = (if p \<in> g then pixel_at bm b p else None)"
  by (simp add: pixel_at_def clip_def split: option.splits)

lemma stack_values_Nil: "stack_values [] b p = []"
  by (simp add: stack_values_def List.map_filter_simps)

lemma stack_values_Cons:
  "stack_values (i # ic) b p =
     (case pixel_at (bands i) b p of None \<Rightarrow> stack_values ic b p | Some v \<Rightarrow> v # stack_values ic b p)"
  by (simp add: stack_values_def List.map_filter_simps split: option.split)

lemma select_images_Nil: "select_images s [] = []"
  by (simp add: select_images_def)

lemma select_images_Cons:
  "select_images s (i # ic) =
     i\<lparr>band_names := filter (selects s) (band_names i), bands := select_bands s (bands i)\<rparr>
       # select_images s ic"
  by (simp add: select_images_def)

lemma pixel_at_select_bands:
  "pixel_at (select_bands s bm) b p = (if selects s b then pixel_at bm b p else None)"
  by (simp add: pixel_at_def select_bands_def)

lemma stack_values_no_band:
  "\<not> list_ex (\<lambda>i. bands i b \<noteq> None) ic \<Longrightarrow> stack_values ic b p = []"
  by (induction ic) (simp_all add: stack_values_Nil stack_values_Cons pixel_at_def)

lemma pixel_at_reduce:
  "pixel_at (reduce_collection k ic) b p = reduce_values k (stack_values ic b p)"
  by (simp add: pixel_at_def reduce_collection_def stack_values_no_band)

lemma stack_values_select:
  "stack_values (select_images s ic) b p = (if selects s b then stack_values ic b p else [])"
  by (induction ic)
     (simp_all add: stack_values_Nil stack_values_Cons select_images_Nil select_images_Cons pixel_at_select_bands
        split: option.split)

lemma filterBounds_select: "filterBounds g (select_images s ic) = select_images s (filterBounds g ic)"
  by (induction ic) (simp_all add: filterBounds_def select_images_def)

lemma filterDate_select: "filterDate t0 t1 (select_images s ic) = select_images s (filterDate t0 t1 ic)"
  by (induction ic) (simp_all add: filterDate_def select_images_def)

lemma filterDate_filterBounds: "filterDate t0 t1 (filterBounds g ic) = filterBounds g (filterDate t0 t1 ic)"
  by (induction ic) (simp_all add: filterDate_def filterBounds_def)

lemma accepts_Once_Lit: "accepts (Once (Lit c) # r) s \<longleftrightarrow> (\<exists>xs. s = c # xs \<and> accepts r xs)"
  by (cases s) auto

lemma accepts_Once_Dot: "accepts (Once Dot # r) s \<longleftrightarrow> (\<exists>x xs. s = x # xs \<and> accepts r xs)"
  by (cases s) auto

lemma accepts_Many_Dot: "accepts [Many Dot] s"
  by (induction s) simp_all

lemma selects_MaxFRP: "selects ''MaxFRP'' b \<longleftrightarrow> b = ''MaxFRP''"
  by (auto simp: selects_def atom_of_def accepts_Once_Lit)

lemma selects_CO: "selects ''CO_column_number_density'' b \<longleftrightarrow> b = ''CO_column_number_density''"
  by (auto simp: selects_def atom_of_def accepts_Once_Lit)

lemma selects_NO2: "selects ''NO2_column_number_density'' b \<longleftrightarrow> b = ''NO2_column_number_density''"
  by (auto simp: selects_def atom_of_def accepts_Once_Lit)

lemma selects_aer: "selects ''absorbing_aerosol_index'' b \<longleftrightarrow> b = ''absorbing_aerosol_index''"
  by (auto simp: selects_def atom_of_def accepts_Once_Lit)

lemma selects_SR: "selects ''SR_B.'' b \<longleftrightarrow> (\<exists>c. b = ''SR_B'' @ [c])"
  by (auto simp: selects_def atom_of_def accepts_Once_Lit accepts_Once_Dot)

lemma selects_ST: "selects ''ST_B.*'' b \<longleftrightarrow> (\<exists>r. b = ''ST_B'' @ r)"
  by (auto simp: selects_def atom_of_def accepts_Once_Lit accepts_Many_Dot)

lemma optical_not_thermal: "selects ''SR_B.'' b \<Longrightarrow> \<not> selects ''ST_B.*'' b"
  by (auto simp: selects_SR selects_ST)

section \<open>The fire radiative power composite: claim C9\<close>

lemma reduce_values_max_single: "reduce_values MaxReducer [v] = Some v"
  by simp

lemma stack_values_single:
  "stack_values [i] b p = (case pixel_at (bands i) b p of None \<Rightarrow> [] | Some v \<Rightarrow> [v])"
  by (simp add: stack_values_Cons stack_values_Nil split: option.split)

text \<open>
  C9: when exactly one image passes the fire-period and region filters, the clipped max
  composite holds, at every pixel inside the region, that image's MaxFRP value (masked
  where the image is masked), and no other band.
\<close>

theorem modis_single_image_max:
  assumes "filterBounds roi (filterDate fireStart fireEnd mod14) = [img]" and "p \<in> roi"
  shows "pixel_at (modisFire_roi mod14 roi) b p =
           (if b = ''MaxFRP'' then pixel_at (bands img) ''MaxFRP'' p else None)"
proof -
  have "pixel_at (modisFire_roi mod14 roi) b p =
          reduce_values MaxReducer (if b = ''MaxFRP'' then stack_values [img] b p else [])"
    using assms
    by (simp add: modisFire_roi_def modisFire_def collection_max_def pixel_at_clip pixel_at_reduce
          filterBounds_select stack_values_select selects_MaxFRP)
  also have "\<dots> = (if b = ''MaxFRP'' then pixel_at (bands img) ''MaxFRP'' p else None)"
    by (simp add: stack_values_single split: option.split)
  finally show ?thesis .
qed

lemma sample_mod14_window:
  "filterBounds {(0, 0)} (filterDate fireStart fireEnd sample_mod14) =
     [one_pixel_image (2019, 12, 31, 0) 0 ''MaxFRP'' 412]"
  by (simp add: sample_mod14_def filterDate_def filterBounds_def one_pixel_image_def fireStart_def fireEnd_def)

text \<open>
  A collection of two images of which only the one of 2019-12-31 is inside the fire
  period.
\<close>

theorem modis_single_image_max_witness:
  "filterBounds {(0, 0)} (filterDate fireStart fireEnd sample_mod14) =
     [one_pixel_image (2019, 12, 31, 0) 0 ''MaxFRP'' 412]
   \<and> (0, 0) \<in> {(0, 0) :: pixel}
   \<and> pixel_at (modisFire_roi sample_mod14 {(0, 0)}) ''MaxFRP'' (0, 0) = Some 412"
proof -
  have m: "(0, 0) \<in> {(0, 0) :: pixel}" by simp
  have v: "pixel_at (bands (one_pixel_image (2019, 12, 31, 0) 0 ''MaxFRP'' 412)) ''MaxFRP'' (0, 0) = Some 412"
    by (simp add: one_pixel_image_def pixel_at_def)
  from modis_single_image_max[OF sample_mod14_window m, of "''MaxFRP''"] v sample_mod14_window m
  show ?thesis by simp
qed

section \<open>Binary64 values of the rescaling constants\<close>

lemma normalize_numeral:
  "normalize (numeral k) m e =
     (if 2 ^ 53 \<le> m then normalize (pred_numeral k) (m / 2) (e + 1)
      else if m < 2 ^ 52 \<and> - 1074 < e then normalize (pred_numeral k) (2 * m) (e - 1)
      else (m, e))"
  by (simp add: numeral_eq_Suc)

lemmas fl_eval = fl_def normalize_numeral round_half_even_def pow2_def

lemma fl_scale_optical: "fl 0.0000275 = 8116567392432203 / 2 ^ 68"
  by (simp add: fl_eval)

lemma fl_offset_optical: "fl (- 0.2) = - (3602879701896397 / 2 ^ 54)"
  by (simp add: fl_eval)

lemma fl_scale_thermal: "fl 0.00341802 = 3940708761176295 / 2 ^ 60"
  by (simp add: fl_eval)

lemma fl_offset_thermal: "fl 149.0 = 149"
  by (simp add: fl_eval)

lemma optical_20000: "fl (fl (20000 * fl 0.0000275) + fl (- 0.2)) = 6305039478318695 / 2 ^ 54"
proof -
  have "fl (20000 * (8116567392432203 / 2 ^ 68)) = 2476979795053773 / 2 ^ 52"
    by (simp add: fl_eval)
  moreover have "fl (2476979795053773 / 2 ^ 52 + - (3602879701896397 / 2 ^ 54)) = 6305039478318695 / 2 ^ 54"
    by (simp add: fl_eval)
  ultimately show ?thesis by (simp only: fl_scale_optical fl_offset_optical)
qed

lemma optical_10000: "fl (fl (10000 * fl 0.0000275) + fl (- 0.2)) = 1351079888211149 / 2 ^ 54"
proof -
  have "fl (10000 * (8116567392432203 / 2 ^ 68)) = 2476979795053773 / 2 ^ 53"
    by (simp add: fl_eval)
  moreover have "fl (2476979795053773 / 2 ^ 53 + - (3602879701896397 / 2 ^ 54)) = 1351079888211149 / 2 ^ 54"
    by (simp add: fl_eval)
  ultimately show ?thesis by (simp only: fl_scale_optical fl_offset_optical)
qed

lemma optical_40000: "fl (fl (40000 * fl 0.0000275) + fl (- 0.2)) = 4053239664633447 / 2 ^ 52"
proof -
  have "fl (40000 * (8116567392432203 / 2 ^ 68)) = 2476979795053773 / 2 ^ 51"
    by (simp add: fl_eval)
  moreover have "fl (2476979795053773 / 2 ^ 51 + - (3602879701896397 / 2 ^ 54)) = 4053239664633447 / 2 ^ 52"
    by (simp add: fl_eval)
  ultimately show ?thesis by (simp only: fl_scale_optical fl_offset_optical)
qed

lemma thermal_44000: "fl (fl (44000 * fl 0.00341802) + fl 149.0) = 2633487622666757 / 2 ^ 43"
proof -
  have "fl (44000 * (3940708761176295 / 2 ^ 60)) = 1322869762357765 / 2 ^ 43"
    by (simp add: fl_eval)
  moreover have "fl (1322869762357765 / 2 ^ 43 + 149) = 2633487622666757 / 2 ^ 43"
    by (simp add: fl_eval)
  ultimately show ?thesis by (simp only: fl_scale_thermal fl_offset_thermal)
qed

section \<open>The rescaling and the composites: claims C8 and C2\<close>

lemma pixel_at_multiply:
  "pixel_at (bands (multiply c img)) b p = map_option (\<lambda>v. fl (v * fl c)) (pixel_at (bands img) b p)"
  by (simp add: pixel_at_def multiply_def split: option.split)

lemma pixel_at_add:
  "pixel_at (bands (add c img)) b p = map_option (\<lambda>v. fl (v + fl c)) (pixel_at (bands img) b p)"
  by (simp add: pixel_at_def add_def split: option.split)

lemma band_absent_multiply: "bands (multiply c img) b = None \<longleftrightarrow> bands img b = None"
  by (simp add: multiply_def)

lemma band_absent_add: "bands (add c img) b = None \<longleftrightarrow> bands img b = None"
  by (simp add: add_def)

lemma pixel_at_addBands:
  "pixel_at (bands (addBands_overwrite dst src)) b p =
     (if bands src b = None then pixel_at (bands dst) b p else pixel_at (bands src) b p)"
  by (simp add: pixel_at_def addBands_overwrite_def map_add_def split: option.split)

lemma band_absent_addBands:
  "bands (addBands_overwrite dst src) b = None \<longleftrightarrow> bands dst b = None \<and> bands src b = None"
  by (auto simp: addBands_overwrite_def)

lemma pixel_at_absent: "bm b = None \<Longrightarrow> pixel_at bm b p = None"
  by (simp add: pixel_at_def)

lemma select_cases:
  "select s img =
     (if list_ex (selects s) (band_names img)
      then Inr (img\<lparr>band_names := filter (selects s) (band_names img),
                    bands := select_bands s (bands img)\<rparr>)
      else Inl (NoBandMatched s))"
  by (simp add: select_def)

lemma applyScaleFactors_raises_optical:
  "\<not> list_ex (selects ''SR_B.'') (band_names img) \<Longrightarrow>
     applyScaleFactors img = Inl (NoBandMatched ''SR_B.'')"
  by (simp add: applyScaleFactors_def select_cases)

lemma applyScaleFactors_raises_thermal:
  "list_ex (selects ''SR_B.'') (band_names img) \<Longrightarrow> \<not> list_ex (selects ''ST_B.*'') (band_names img) \<Longrightarrow>
     applyScaleFactors img = Inl (NoBandMatched ''ST_B.*'')"
  by (simp add: applyScaleFactors_def select_cases)

lemma scaled_pixel_returns:
  assumes "list_ex (selects ''SR_B.'') (band_names img)" "list_ex (selects ''ST_B.*'') (band_names img)"
  shows "scaled_pixel img b p =
     Inr (if selects ''ST_B.*'' b
          then map_option (\<lambda>v. fl (fl (v * fl 0.00341802) + fl 149.0)) (pixel_at (bands img) b p)
          else if selects ''SR_B.'' b
          then map_option (\<lambda>v. fl (fl (v * fl 0.0000275) + fl (- 0.2))) (pixel_at (bands img) b p)
          else pixel_at (bands img) b p)"
proof (cases "bands img b = None")
  case True
  then show ?thesis
    using assms
    by (simp add: scaled_pixel_def applyScaleFactors_def select_cases Let_def pixel_at_addBands
          band_absent_add band_absent_multiply band_absent_addBands select_bands_def pixel_at_absent)
next
  case False
  then obtain r where r: "bands img b = Some r" by blast
  show ?thesis
    using assms
    by (simp add: scaled_pixel_def applyScaleFactors_def select_cases Let_def pixel_at_addBands
          band_absent_add band_absent_multiply band_absent_addBands select_bands_def
          pixel_at_add pixel_at_multiply option.map_comp comp_def r)
       (simp add: pixel_at_def select_bands_def r)
qed

lemma sample_dn_names:
  "list_ex (selects ''SR_B.'') (band_names sample_dn_image)"
  "list_ex (selects ''ST_B.*'') (band_names sample_dn_image)"
  by (simp_all add: sample_dn_image_def selects_SR selects_ST)

lemma scaled_pixel_optical:
  assumes "list_ex (selects ''SR_B.'') (band_names img)" "list_ex (selects ''ST_B.*'') (band_names img)"
    and "selects ''SR_B.'' b"
  shows "scaled_pixel img b q =
        Inr (map_option (\<lambda>v. fl (fl (v * fl 0.0000275) + fl (- 0.2))) (pixel_at (bands img) b q))"
  using assms(3) optical_not_thermal[OF assms(3)] by (simp add: scaled_pixel_returns[OF assms(1,2)])

lemma scaled_pixel_thermal:
  assumes "list_ex (selects ''SR_B.'') (band_names img)" "list_ex (selects ''ST_B.*'') (band_names img)"
    and "selects ''ST_B.*'' b"
  shows "scaled_pixel img b q =
        Inr (map_option (\<lambda>v. fl (fl (v * fl 0.00341802) + fl 149.0)) (pixel_at (bands img) b q))"
  using assms(3) by (simp add: scaled_pixel_returns[OF assms(1,2)])

lemma scaled_pixel_20000:
  assumes "list_ex (selects ''SR_B.'') (band_names img)" "list_ex (selects ''ST_B.*'') (band_names img)"
    and "selects ''SR_B.'' b" and "pixel_at (bands img) b q = Some 20000"
  shows "scaled_pixel img b q = Inr (Some (6305039478318695 / 2 ^ 54))"
  by (simp only: scaled_pixel_optical[OF assms(1,2,3)] assms(4) option.map optical_20000)

lemma sample_dn_optical: "scaled_pixel sample_dn_image ''SR_B4'' q = Inr (Some (6305039478318695 / 2 ^ 54))"
proof (rule scaled_pixel_20000[OF sample_dn_names])
  show "selects ''SR_B.'' ''SR_B4''" by (simp add: selects_SR)
  show "pixel_at (bands sample_dn_image) ''SR_B4'' q = Some 20000"
    by (simp add: sample_dn_image_def pixel_at_def)
qed

text \<open>
  C8, as stated, fails at its own input: on an optical band of constant raw value 20000
  the rescaled value is 6305039478318695 / 2^54 (printed 0.35000000000000003), which is
  neither the real number 0.35 nor the binary64 number nearest to 0.35.
\<close>

theorem rescale_20000_counterexample:
  "scaled_pixel sample_dn_image ''SR_B4'' (0, 0) = Inr (Some (6305039478318695 / 2 ^ 54))
   \<and> scaled_pixel sample_dn_image ''SR_B4'' (0, 0) \<noteq> Inr (Some 0.35)
   \<and> scaled_pixel sample_dn_image ''SR_B4'' (0, 0) \<noteq> Inr (Some (fl 0.35))"
proof -
  have "fl 0.35 = 3152519739159347 / 2 ^ 53" by (simp add: fl_eval)
  then show ?thesis by (simp add: sample_dn_optical)
qed

text \<open>
  C8, amended: on an image that carries optical and thermal bands, \<open>applyScaleFactors\<close> is
  a fixed linear transform per band group in binary64 arithmetic, each product and sum
  rounded. A band matching \<^verbatim>\<open>SR_B.\<close> becomes value * 0.0000275 + (-0.2), a band matching
  \<^verbatim>\<open>ST_B.*\<close> becomes value * 0.00341802 + 149.0, any other band is unchanged, no band
  matches both selectors, and the two pairs of constants differ. An optical band of
  constant raw value 20000 becomes the constant 6305039478318695 / 2^54, within 1e-16 of
  0.35. An image on which a selector matches no band makes the function raise.
\<close>

theorem scale_factors_linear:
  "(list_ex (selects ''SR_B.'') (band_names img) \<and> list_ex (selects ''ST_B.*'') (band_names img)
      \<and> selects ''SR_B.'' b \<longrightarrow>
      scaled_pixel img b p =
        Inr (map_option (\<lambda>v. fl (fl (v * fl 0.0000275) + fl (- 0.2))) (pixel_at (bands img) b p)))
   \<and> (list_ex (selects ''SR_B.'') (band_names img) \<and> list_ex (selects ''ST_B.*'') (band_names img)
      \<and> selects ''ST_B.*'' b \<longrightarrow>
      scaled_pixel img b p =
        Inr (map_option (\<lambda>v. fl (fl (v * fl 0.00341802) + fl 149.0)) (pixel_at (bands img) b p)))
   \<and> (list_ex (selects ''SR_B.'') (band_names img) \<and> list_ex (selects ''ST_B.*'') (band_names img)
      \<and> \<not> selects ''SR_B.'' b \<and> \<not> selects ''ST_B.*'' b \<longrightarrow>
      scaled_pixel img b p = Inr (pixel_at (bands img) b p))
   \<and> (list_ex (selects ''SR_B.'') (band_names img) \<and> list_ex (selects ''ST_B.*'') (band_names img)
      \<and> selects ''SR_B.'' b \<and> (\<forall>q. pixel_at (bands img) b q = Some 20000) \<longrightarrow>
      (\<forall>q. scaled_pixel img b q = Inr (Some (6305039478318695 / 2 ^ 54))))
   \<and> (\<not> list_ex (selects ''SR_B.'') (band_names img) \<longrightarrow>
      applyScaleFactors img = Inl (NoBandMatched ''SR_B.''))
   \<and> (list_ex (selects ''SR_B.'') (band_names img) \<and> \<not> list_ex (selects ''ST_B.*'') (band_names img) \<longrightarrow>
      applyScaleFactors img = Inl (NoBandMatched ''ST_B.*''))
   \<and> \<bar>6305039478318695 / 2 ^ 54 - 0.35\<bar> < (1 / 10 ^ 16 :: real)
   \<and> selects ''SR_B.'' ''SR_B4'' \<and> selects ''ST_B.*'' ''ST_B10''
   \<and> (fl 0.0000275 \<noteq> fl 0.00341802 \<and> fl (- 0.2) \<noteq> fl 149.0)"
proof -
  note opt = scaled_pixel_optical
  note th = scaled_pixel_thermal
  have other: "scaled_pixel img b p = Inr (pixel_at (bands img) b p)"
    if "list_ex (selects ''SR_B.'') (band_names img)" "list_ex (selects ''ST_B.*'') (band_names img)"
       "\<not> selects ''SR_B.'' b" "\<not> selects ''ST_B.*'' b"
    using that(3,4) by (simp add: scaled_pixel_returns[OF that(1,2)])
  have const: "scaled_pixel img b q = Inr (Some (6305039478318695 / 2 ^ 54))"
    if "list_ex (selects ''SR_B.'') (band_names img)" "list_ex (selects ''ST_B.*'') (band_names img)"
       "selects ''SR_B.'' b" "\<forall>q. pixel_at (bands img) b q = Some 20000" for q
    by (rule scaled_pixel_20000[OF that(1,2,3)]) (use that(4) in blast)
  have near: "\<bar>6305039478318695 / 2 ^ 54 - 0.35\<bar> < (1 / 10 ^ 16 :: real)" by simp
  have sr4: "selects ''SR_B.'' ''SR_B4''" by (simp add: selects_SR)
  have st10: "selects ''ST_B.*'' ''ST_B10''" by (simp add: selects_ST)
  have dist: "fl 0.0000275 \<noteq> fl 0.00341802 \<and> fl (- 0.2) \<noteq> fl 149.0"
    by (simp only: fl_scale_optical fl_scale_thermal fl_offset_optical fl_offset_thermal) simp
  show ?thesis
    by (intro conjI impI allI; (elim conjE)?)
       (rule opt, assumption+, rule th, assumption+, rule other, assumption+,
        rule const, assumption+, erule applyScaleFactors_raises_optical,
        erule (1) applyScaleFactors_raises_thermal, rule near, rule sr4, rule st10,
        rule dist[THEN conjunct1], rule dist[THEN conjunct2])
qed

text \<open>The transform applied to an image of constant digital numbers.\<close>

theorem scale_factors_linear_witness:
  "list_ex (selects ''SR_B.'') (band_names sample_dn_image)
   \<and> list_ex (selects ''ST_B.*'') (band_names sample_dn_image)
   \<and> selects ''SR_B.'' ''SR_B4'' \<and> (\<forall>q. pixel_at (bands sample_dn_image) ''SR_B4'' q = Some 20000)
   \<and> (\<forall>q. scaled_pixel sample_dn_image ''SR_B4'' q = Inr (Some (6305039478318695 / 2 ^ 54)))
   \<and> selects ''ST_B.*'' ''ST_B10''
   \<and> scaled_pixel sample_dn_image ''ST_B10'' (3, 4) = Inr (Some (2633487622666757 / 2 ^ 43))"
proof -
  have c: "\<forall>q. pixel_at (bands sample_dn_image) ''SR_B4'' q = Some 20000"
    by (simp add: sample_dn_image_def pixel_at_def)
  have t: "pixel_at (bands sample_dn_image) ''ST_B10'' (3, 4) = Some 44000"
    by (simp add: sample_dn_image_def pixel_at_def)
  note n = sample_dn_names
  note at_sr = scale_factors_linear[of sample_dn_image "''SR_B4''" "(3, 4)"]
  note at_st = scale_factors_linear[of sample_dn_image "''ST_B10''" "(3, 4)"]
  have sr: "selects ''SR_B.'' ''SR_B4''" using at_sr by (elim conjE)
  have st: "selects ''ST_B.*'' ''ST_B10''" using at_sr by (elim conjE)
  have 1: "\<forall>q. scaled_pixel sample_dn_image ''SR_B4'' q = Inr (Some (6305039478318695 / 2 ^ 54))"
    using at_sr n sr c by blast
  have "scaled_pixel sample_dn_image ''ST_B10'' (3, 4) =
        Inr (map_option (\<lambda>v. fl (fl (v * fl 0.00341802) + fl 149.0)) (pixel_at (bands sample_dn_image) ''ST_B10'' (3, 4)))"
    using at_st n st by blast
  then have 2: "scaled_pixel sample_dn_image ''ST_B10'' (3, 4) = Inr (Some (2633487622666757 / 2 ^ 43))"
    by (simp only: t option.map thermal_44000)
  from n sr st c 1 2 show ?thesis by blast
qed

lemma reduce_values_mean: "reduce_values MeanReducer vs = (if vs = [] then None else Some (sum_list vs / real (length vs)))"
  by (cases vs) simp_all

lemma reduce_values_median: "reduce_values MedianReducer vs = (if vs = [] then None else Some (median_of vs))"
  by (cases vs) simp_all

lemma reduce_values_max: "reduce_values MaxReducer vs = (if vs = [] then None else Some (Max (set vs)))"
proof (cases vs)
  case Nil
  then show ?thesis by simp
next
  case (Cons v ws)
  have "fold max ws v = Max (set (v # ws))" by (rule Max.set_eq_fold[symmetric])
  with Cons show ?thesis by simp
qed

lemma sample_l8_fire: "landsatFire sample_l8 {(0, 0)} = sample_l8"
  by (simp add: landsatFire_def sample_l8_def filterDate_def filterBounds_def filterMetadata_def
        landsat_pixel_image_def fireStart_def fireEnd_def)

lemma landsat_pixel_scaled:
  "\<exists>j. applyScaleFactors (landsat_pixel_image t c red th) = Inr j
       \<and> pixel_at (bands j) ''SR_B4'' (0, 0) = Some (fl (fl (red * fl 0.0000275) + fl (- 0.2)))"
proof -
  have n: "list_ex (selects ''SR_B.'') (band_names (landsat_pixel_image t c red th))"
    "list_ex (selects ''ST_B.*'') (band_names (landsat_pixel_image t c red th))"
    by (simp_all add: landsat_pixel_image_def selects_SR selects_ST)
  have sr: "selects ''SR_B.'' ''SR_B4''" by (simp add: selects_SR)
  have px: "pixel_at (bands (landsat_pixel_image t c red th)) ''SR_B4'' (0, 0) = Some red"
    by (simp add: landsat_pixel_image_def pixel_at_def)
  have "scaled_pixel (landsat_pixel_image t c red th) ''SR_B4'' (0, 0) =
          Inr (Some (fl (fl (red * fl 0.0000275) + fl (- 0.2))))"
    by (simp only: scaled_pixel_optical[OF n sr] px option.map)
  then show ?thesis
    by (cases "applyScaleFactors (landsat_pixel_image t c red th)") (simp_all add: scaled_pixel_def)
qed

lemma sample_l8_scaled:
  "\<exists>scaled. landsatFireScaled sample_l8 {(0, 0)} = Inr scaled
       \<and> stack_values scaled ''SR_B4'' (0, 0) =
           [1351079888211149 / 2 ^ 54, 1351079888211149 / 2 ^ 54, 4053239664633447 / 2 ^ 52]"
proof -
  obtain j1 where j1: "applyScaleFactors (landsat_pixel_image (2019, 12, 20, 0) 5 10000 44000) = Inr j1"
    "pixel_at (bands j1) ''SR_B4'' (0, 0) = Some (fl (fl (10000 * fl 0.0000275) + fl (- 0.2)))"
    using landsat_pixel_scaled by blast
  obtain j2 where j2: "applyScaleFactors (landsat_pixel_image (2019, 12, 28, 0) 10 10000 44000) = Inr j2"
    "pixel_at (bands j2) ''SR_B4'' (0, 0) = Some (fl (fl (10000 * fl 0.0000275) + fl (- 0.2)))"
    using landsat_pixel_scaled by blast
  obtain j3 where j3: "applyScaleFactors (landsat_pixel_image (2020, 1, 5, 0) 20 40000 44000) = Inr j3"
    "pixel_at (bands j3) ''SR_B4'' (0, 0) = Some (fl (fl (40000 * fl 0.0000275) + fl (- 0.2)))"
    using landsat_pixel_scaled by blast
  have "landsatFireScaled sample_l8 {(0, 0)} = Inr [j1, j2, j3]"
    by (simp only: landsatFireScaled_def sample_l8_fire) (simp add: sample_l8_def j1(1) j2(1) j3(1))
  moreover have "stack_values [j1, j2, j3] ''SR_B4'' (0, 0) =
           [1351079888211149 / 2 ^ 54, 1351079888211149 / 2 ^ 54, 4053239664633447 / 2 ^ 52]"
    by (simp only: stack_values_Cons stack_values_Nil j1(2) j2(2) j3(2) option.case
          optical_10000 optical_40000)
  ultimately show ?thesis by blast
qed

lemma sample_l8_median:
  "layer_pixel (landsat_RGB sample_l8 {(0, 0)}) ''SR_B4'' (0, 0) = Inr (Some (1351079888211149 / 2 ^ 54))"
proof -
  obtain scaled where s: "landsatFireScaled sample_l8 {(0, 0)} = Inr scaled"
    "stack_values scaled ''SR_B4'' (0, 0) =
       [1351079888211149 / 2 ^ 54, 1351079888211149 / 2 ^ 54, 4053239664633447 / 2 ^ 52]"
    using sample_l8_scaled by blast
  show ?thesis
    by (simp add: layer_pixel_def landsat_RGB_def s collection_median_def pixel_at_clip pixel_at_reduce
          median_of_def)
qed

lemma sample_l8_mean:
  "layer_pixel_between (spec_landsat_composite sample_l8 {(0, 0)}) ''SR_B4'' (0, 0) (34 / 100) (36 / 100)"
proof -
  obtain scaled where s: "landsatFireScaled sample_l8 {(0, 0)} = Inr scaled"
    "stack_values scaled ''SR_B4'' (0, 0) =
       [1351079888211149 / 2 ^ 54, 1351079888211149 / 2 ^ 54, 4053239664633447 / 2 ^ 52]"
    using sample_l8_scaled by blast
  show ?thesis
    by (simp add: layer_pixel_between_def layer_pixel_def spec_landsat_composite_def s
          collection_mean_def pixel_at_clip pixel_at_reduce)
qed

text \<open>
  C2, as stated, fails for the multispectral composites: on three Landsat images with a
  red and a thermal band, whose rescaled red band holds about 0.075, 0.075 and 0.9 at a
  pixel, the displayed composite holds the median, 1351079888211149 / 2^54 (printed
  0.07500000000000001), where a mean composite would hold a value between 0.34 and 0.36.
\<close>

theorem landsat_reducer_counterexample:
  "landsat_RGB sample_l8 {(0, 0)} \<noteq> spec_landsat_composite sample_l8 {(0, 0)}
   \<and> layer_pixel (landsat_RGB sample_l8 {(0, 0)}) ''SR_B4'' (0, 0) = Inr (Some (1351079888211149 / 2 ^ 54))
   \<and> layer_pixel_between (landsat_RGB sample_l8 {(0, 0)}) ''SR_B4'' (0, 0) (7 / 100) (8 / 100)
   \<and> layer_pixel_between (spec_landsat_composite sample_l8 {(0, 0)}) ''SR_B4'' (0, 0) (34 / 100) (36 / 100)"
proof -
  have low: "layer_pixel_between (landsat_RGB sample_l8 {(0, 0)}) ''SR_B4'' (0, 0) (7 / 100) (8 / 100)"
    by (simp add: layer_pixel_between_def sample_l8_median)
  have "\<not> layer_pixel_between (landsat_RGB sample_l8 {(0, 0)}) ''SR_B4'' (0, 0) (34 / 100) (36 / 100)"
    by (simp add: layer_pixel_between_def sample_l8_median)
  with sample_l8_mean have "landsat_RGB sample_l8 {(0, 0)} \<noteq> spec_landsat_composite sample_l8 {(0, 0)}"
    by auto
  with low sample_l8_median sample_l8_mean show ?thesis by blast
qed

text \<open>
  C2, amended: the script applies three temporal reducers pixel-wise over the filtered
  stacks: the mean for the CO, NO2 and aerosol-index composites, the median for both
  multispectral (Landsat) composites put on the map, and the max for fire radiative power;
  outside the region every composite is masked, and a Landsat layer raises when the
  rescaling of an image raised.
\<close>

theorem composite_reducers:
  "pixel_at (clip_CO nrti_co roi) ''CO_column_number_density'' p =
     (if p \<in> roi
      then reduce_values MeanReducer
             (stack_values (filterDate fireStart fireEnd (filterBounds roi nrti_co))
                ''CO_column_number_density'' p)
      else None)
   \<and> pixel_at (clip_NO2 nrti_no2 roi) ''NO2_column_number_density'' p =
     (if p \<in> roi
      then reduce_values MeanReducer
             (stack_values (filterDate fireStart fireEnd (filterBounds roi nrti_no2))
                ''NO2_column_number_density'' p)
      else None)
   \<and> pixel_at (sent_aer aer_ai roi) ''absorbing_aerosol_index'' p =
     (if p \<in> roi
      then reduce_values MeanReducer
             (stack_values (filterBounds roi (filterDate (2019, 12, 1, 0) fireEnd aer_ai))
                ''absorbing_aerosol_index'' p)
      else None)
   \<and> layer_pixel (landsat_RGB l8 roi) b p =
     (case landsatFireScaled l8 roi of
        Inl e \<Rightarrow> Inl e
      | Inr scaled \<Rightarrow>
          Inr (if p \<in> roi then reduce_values MedianReducer (stack_values scaled b p) else None))
   \<and> layer_pixel (landsat_false_color l8 roi) b p =
     (case landsatFireScaled l8 roi of
        Inl e \<Rightarrow> Inl e
      | Inr scaled \<Rightarrow>
          Inr (if p \<in> roi then reduce_values MedianReducer (stack_values scaled b p) else None))
   \<and> pixel_at (modisFire_roi mod14 roi) ''MaxFRP'' p =
     (if p \<in> roi
      then reduce_values MaxReducer
             (stack_values (filterBounds roi (filterDate fireStart fireEnd mod14)) ''MaxFRP'' p)
      else None)
   \<and> reduce_values MeanReducer vs = (if vs = [] then None else Some (sum_list vs / real (length vs)))
   \<and> reduce_values MedianReducer vs = (if vs = [] then None else Some (median_of vs))
   \<and> reduce_values MaxReducer vs = (if vs = [] then None else Some (Max (set vs)))"
proof -
  have co: "pixel_at (clip_CO nrti_co roi) ''CO_column_number_density'' p =
     (if p \<in> roi
      then reduce_values MeanReducer
             (stack_values (filterDate fireStart fireEnd (filterBounds roi nrti_co))
                ''CO_column_number_density'' p)
      else None)"
    by (simp add: clip_CO_def collection_CO_fire_def collection_mean_def pixel_at_clip pixel_at_reduce
          filterBounds_select filterDate_select stack_values_select selects_CO)
  have no2: "pixel_at (clip_NO2 nrti_no2 roi) ''NO2_column_number_density'' p =
     (if p \<in> roi
      then reduce_values MeanReducer
             (stack_values (filterDate fireStart fireEnd (filterBounds roi nrti_no2))
                ''NO2_column_number_density'' p)
      else None)"
    by (simp add: clip_NO2_def collection_NO2_fire_def collection_mean_def pixel_at_clip pixel_at_reduce
          filterBounds_select filterDate_select stack_values_select selects_NO2)
  have aer: "pixel_at (sent_aer aer_ai roi) ''absorbing_aerosol_index'' p =
     (if p \<in> roi
      then reduce_values MeanReducer
             (stack_values (filterBounds roi (filterDate (2019, 12, 1, 0) fireEnd aer_ai))
                ''absorbing_aerosol_index'' p)
      else None)"
    by (simp add: sent_aer_def sentinel5p_aer_def collection_mean_def pixel_at_clip pixel_at_reduce
          filterBounds_select filterDate_select stack_values_select selects_aer)
  have rgb: "layer_pixel (landsat_RGB l8 roi) b p =
     (case landsatFireScaled l8 roi of
        Inl e \<Rightarrow> Inl e
      | Inr scaled \<Rightarrow>
          Inr (if p \<in> roi then reduce_values MedianReducer (stack_values scaled b p) else None))"
    by (simp add: layer_pixel_def landsat_RGB_def collection_median_def pixel_at_clip pixel_at_reduce
          split: sum.split)
  have fc: "layer_pixel (landsat_false_color l8 roi) b p =
     (case landsatFireScaled l8 roi of
        Inl e \<Rightarrow> Inl e
      | Inr scaled \<Rightarrow>
          Inr (if p \<in> roi then reduce_values MedianReducer (stack_values scaled b p) else None))"
    by (simp add: layer_pixel_def landsat_false_color_def collection_median_def pixel_at_clip pixel_at_reduce
          split: sum.split)
  have frp: "pixel_at (modisFire_roi mod14 roi) ''MaxFRP'' p =
     (if p \<in> roi
      then reduce_values MaxReducer
             (stack_values (filterBounds roi (filterDate fireStart fireEnd mod14)) ''MaxFRP'' p)
      else None)"
    by (simp add: modisFire_roi_def modisFire_def collection_max_def pixel_at_clip pixel_at_reduce
          filterBounds_select stack_values_select selects_MaxFRP)
  show ?thesis
    by (intro conjI) (rule co, rule no2, rule aer, rule rgb, rule fc, rule frp,
        rule reduce_values_mean, rule reduce_values_median, rule reduce_values_max)
qed

text \<open>The Landsat layer of the three sample images, read at the red band.\<close>

theorem composite_reducers_witness:
  "layer_pixel (landsat_RGB sample_l8 {(0, 0)}) ''SR_B4'' (0, 0) = Inr (Some (1351079888211149 / 2 ^ 54))"
proof -
  obtain scaled where s: "landsatFireScaled sample_l8 {(0, 0)} = Inr scaled"
    "stack_values scaled ''SR_B4'' (0, 0) =
       [1351079888211149 / 2 ^ 54, 1351079888211149 / 2 ^ 54, 4053239664633447 / 2 ^ 52]"
    using sample_l8_scaled by blast
  note at_sample = composite_reducers[of "[]" "{(0, 0)}" "(0, 0)" "[]" "[]" sample_l8 "''SR_B4''" "[]" "[]"]
  have "layer_pixel (landsat_RGB sample_l8 {(0, 0)}) ''SR_B4'' (0, 0) =
     (case landsatFireScaled sample_l8 {(0, 0)} of
        Inl e \<Rightarrow> Inl e
      | Inr scaled \<Rightarrow>
          Inr (if (0, 0) \<in> {(0, 0) :: pixel}
               then reduce_values MedianReducer (stack_values scaled ''SR_B4'' (0, 0)) else None))"
    by (rule at_sample[THEN conjunct2, THEN conjunct2, THEN conjunct2, THEN conjunct1])
  then show ?thesis by (simp add: s median_of_def)
qed

end
